theory Spec2Isabelle
  imports Main
begin

section \<open>TdarkChess: move application and peer synchronisation\<close>

text \<open>
  The program is one Python file, \<^verbatim>\<open>chess_play.py\<close>: a Qt window (\<^verbatim>\<open>MainWindow\<close>) that
  owns a board of the imported \<^verbatim>\<open>chess\<close> library, a socket to the peer and a reader thread.
  The window's fields become a record, every method a function from the window to an
  outcome that carries the window as the method left it, and every exception a value.
  The \<^verbatim>\<open>chess\<close> library is imported, not part of the repository: the board type is a type
  variable and the library's board operations are the fields of a record of functions,
  so that every statement below holds for whatever rules engine is plugged in.
\<close>

subsection \<open>Python values: exceptions and outcomes\<close>

datatype py_error = ValueError | TypeError

text \<open>
  A method either returns a value or raises; in both cases the object it mutated is left
  in some state, which the outcome carries.
\<close>

datatype ('a, 's) outcome = Returned 'a 's | Raised py_error 's

fun state_of :: "('a, 's) outcome \<Rightarrow> 's" where
  "state_of (Returned v s) = s"
| "state_of (Raised err s) = s"

fun returned :: "('a, 's) outcome \<Rightarrow> 'a option" where
  "returned (Returned v s) = Some v"
| "returned (Raised err s) = None"

text \<open>\<^verbatim>\<open>list.index(x)\<close>: the first position of \<open>x\<close>; Python raises ValueError when there is none.\<close>

fun index_of :: "'a list \<Rightarrow> 'a \<Rightarrow> nat option" where
  "index_of [] x = None"
| "index_of (y # ys) x = (if y = x then Some 0 else map_option Suc (index_of ys x))"

text \<open>\<^verbatim>\<open>str(n)\<close> for a natural number: its decimal digits.\<close>

fun str_nat :: "nat \<Rightarrow> string" where
  "str_nat n = (if n < 10 then [char_of (48 + n)] else str_nat (n div 10) @ [char_of (48 + n mod 10)])"

text \<open>\<^verbatim>\<open>str(i)\<close> for an integer.\<close>

definition str_int :: "int \<Rightarrow> string" where
  "str_int i = (if i < 0 then CHR ''-'' # str_nat (nat (- i)) else str_nat (nat i))"

subsection \<open>The move codec of the chess library\<close>

datatype piece_type = PAWN | KNIGHT | BISHOP | ROOK | QUEEN | KING

text \<open>A piece: its type and its colour (\<open>True\<close> is white, as \<^verbatim>\<open>chess.WHITE\<close>).\<close>

datatype piece = Piece (ptype: piece_type) (pcolor: bool)

record move =
  from_square :: nat
  to_square :: nat
  promotion :: "piece_type option"

definition FILE_NAMES :: string where
  "FILE_NAMES = ''abcdefgh''"

definition RANK_NAMES :: string where
  "RANK_NAMES = ''12345678''"

text \<open>\<^verbatim>\<open>SQUARE_NAMES = [f + r for r in RANK_NAMES for f in FILE_NAMES]\<close>: a1, b1, ..., h8.\<close>

definition SQUARE_NAMES :: "string list" where
  "SQUARE_NAMES = concat (map (\<lambda>r. map (\<lambda>f. [f, r]) FILE_NAMES) RANK_NAMES)"

text \<open>\<^verbatim>\<open>PIECE_SYMBOLS = [None, "p", "n", "b", "r", "q", "k"]\<close>, without its unused head.\<close>

definition PIECE_SYMBOLS :: "(char \<times> piece_type) list" where
  "PIECE_SYMBOLS = [(CHR ''p'', PAWN), (CHR ''n'', KNIGHT), (CHR ''b'', BISHOP),
                    (CHR ''r'', ROOK), (CHR ''q'', QUEEN), (CHR ''k'', KING)]"

fun piece_symbol :: "piece_type \<Rightarrow> char" where
  "piece_symbol PAWN = CHR ''p''"
| "piece_symbol KNIGHT = CHR ''n''"
| "piece_symbol BISHOP = CHR ''b''"
| "piece_symbol ROOK = CHR ''r''"
| "piece_symbol QUEEN = CHR ''q''"
| "piece_symbol KING = CHR ''k''"

text \<open>The symbol of a white piece: \<^verbatim>\<open>Piece.symbol()\<close> puts it in upper case.\<close>

fun piece_symbol_upper :: "piece_type \<Rightarrow> char" where
  "piece_symbol_upper PAWN = CHR ''P''"
| "piece_symbol_upper KNIGHT = CHR ''N''"
| "piece_symbol_upper BISHOP = CHR ''B''"
| "piece_symbol_upper ROOK = CHR ''R''"
| "piece_symbol_upper QUEEN = CHR ''Q''"
| "piece_symbol_upper KING = CHR ''K''"

text \<open>\<^verbatim>\<open>chess.square(file, rank)\<close>.\<close>

definition square :: "nat \<Rightarrow> nat \<Rightarrow> nat" where
  "square file rank = rank * 8 + file"

definition null_move :: move where
  "null_move = \<lparr>from_square = 0, to_square = 0, promotion = None\<rparr>"

text \<open>
  Modelled from the spec: \<^verbatim>\<open>chess.Move.from_uci\<close>, the decoder of the imported chess
  library that \<^verbatim>\<open>performMove\<close> calls. The spec (4.1, 6) gives its contract: a token is
  \<^verbatim>\<open><file><rank><file><rank>\<close> optionally followed by one promotion-piece letter, the
  parse is lexical and consults no board, and it fails only on textual malformation. The
  library raises ValueError where the spec says DecodeError, reads \<^verbatim>\<open>0000\<close> as the null
  move, and takes the fifth letter from its table of piece symbols.
\<close>

definition from_uci :: "string \<Rightarrow> py_error + move" where
  "from_uci uci =
     (if uci = ''0000'' then Inr null_move
      else if length uci = 4 then
        (case index_of SQUARE_NAMES (take 2 uci) of
           None \<Rightarrow> Inl ValueError
         | Some f \<Rightarrow>
             (case index_of SQUARE_NAMES (take 2 (drop 2 uci)) of
                None \<Rightarrow> Inl ValueError
              | Some t \<Rightarrow> Inr \<lparr>from_square = f, to_square = t, promotion = None\<rparr>))
      else if length uci = 5 then
        (case map_of PIECE_SYMBOLS (uci ! 4) of
           None \<Rightarrow> Inl ValueError
         | Some p \<Rightarrow>
             (case index_of SQUARE_NAMES (take 2 uci) of
                None \<Rightarrow> Inl ValueError
              | Some f \<Rightarrow>
                  (case index_of SQUARE_NAMES (take 2 (drop 2 uci)) of
                     None \<Rightarrow> Inl ValueError
                   | Some t \<Rightarrow> Inr \<lparr>from_square = f, to_square = t, promotion = Some p\<rparr>)))
      else Inl ValueError)"

text \<open>
  Modelled from the spec: \<^verbatim>\<open>chess.Move.uci\<close>, the encoder of the imported chess library
  (spec 4.1: the inverse textual rendering of a move). A move that is not the null move is
  written as the names of its two squares and the symbol of its promotion piece, if any.
  The squares are indices into \<^verbatim>\<open>SQUARE_NAMES\<close>: the result is \<open>None\<close> where Python's
  indexing raises.
\<close>

definition uci :: "move \<Rightarrow> string option" where
  "uci m =
     (if from_square m \<noteq> 0 \<or> to_square m \<noteq> 0 \<or> promotion m \<noteq> None then
        (if from_square m < length SQUARE_NAMES \<and> to_square m < length SQUARE_NAMES then
           Some (SQUARE_NAMES ! from_square m @ SQUARE_NAMES ! to_square m @
                 (case promotion m of None \<Rightarrow> [] | Some p \<Rightarrow> [piece_symbol p]))
         else None)
      else Some ''0000'')"

subsection \<open>The rules engine the window consumes\<close>

text \<open>
  The operations of \<^verbatim>\<open>chess.Board\<close> that \<^verbatim>\<open>chess_play.py\<close> calls, as a record of functions
  over a board type \<open>'b\<close>. \<open>Board\<close> is \<^verbatim>\<open>chess.Board()\<close>; \<open>from_fen f v\<close> is
  \<^verbatim>\<open>chess.Board(fen=f, chess960=v)\<close>, \<open>None\<close> where the library raises ValueError on a
  text that is no FEN; \<open>fen\<close> is \<^verbatim>\<open>fen(shredder=False)\<close>; \<open>push\<close> returns the board that
  the library's in-place \<^verbatim>\<open>push\<close> leaves.
\<close>

record 'b rules_engine =
  Board :: 'b
  from_chess960_pos :: "nat \<Rightarrow> 'b"
  from_fen :: "string \<Rightarrow> bool \<Rightarrow> 'b option"
  fen :: "'b \<Rightarrow> string"
  is_legal :: "'b \<Rightarrow> move \<Rightarrow> bool"
  push :: "'b \<Rightarrow> move \<Rightarrow> 'b"
  is_check :: "'b \<Rightarrow> bool"
  is_checkmate :: "'b \<Rightarrow> bool"
  king :: "'b \<Rightarrow> bool \<Rightarrow> nat option"
  turn :: "'b \<Rightarrow> bool"
  piece_at :: "'b \<Rightarrow> nat \<Rightarrow> piece option"

subsection \<open>The window\<close>

datatype level = Debug | Info | Error | Critical

text \<open>
  The fields of \<^verbatim>\<open>MainWindow\<close> that the move and network code reads or writes. Three
  fields record what the methods do to the outside: \<open>sent\<close> is what was written to
  \<^verbatim>\<open>appSocket\<close>, in order; \<open>updates\<close> counts the calls of \<^verbatim>\<open>self.update()\<close>, the repaint
  request; \<open>logged\<close> is what went to \<^verbatim>\<open>logging\<close>. The geometry fields
  (\<^verbatim>\<open>svgX\<close>, \<^verbatim>\<open>margin\<close>, \<^verbatim>\<open>squareSize\<close>, ...) are floating-point pixel arithmetic and
  are not modelled; a mouse event is given by what that arithmetic yields.
\<close>

record 'b main_window =
  is960 :: bool
  chessboard :: 'b
  pieceToMove :: "piece option \<times> string option"
  flipped :: bool
  isMyMove :: bool
  lastMove :: "move option"
  check :: "nat option"
  lastReceived :: "string option"
  popup :: "string option"
  sent :: "string list"
  updates :: nat
  logged :: "(level \<times> string) list"

definition logging :: "level \<Rightarrow> string \<Rightarrow> 'b main_window \<Rightarrow> 'b main_window" where
  "logging lv msg w = w\<lparr>logged := logged w @ [(lv, msg)]\<rparr>"

text \<open>
  \<^verbatim>\<open>_updateMoveOnboard\<close> (lines 143-161), the inner function of \<^verbatim>\<open>performMove\<close>: push
  the move, remember it, recompute the checked king's square, request a repaint, and on
  checkmate show the popup. It always returns True. \<^verbatim>\<open>focusWindow\<close> only raises the
  window on the desktop and is left out.
\<close>

definition updateMoveOnboard :: "'b rules_engine \<Rightarrow> move \<Rightarrow> 'b main_window \<Rightarrow> 'b main_window" where
  "updateMoveOnboard e m w =
     (let b = push e (chessboard w) m;
          w1 = w\<lparr>chessboard := b, lastMove := Some m,
                 check := (if is_check e b then king e b (turn e b) else None),
                 updates := Suc (updates w)\<rparr>
      in if is_checkmate e b then
           (logging Info ''Checkmate'' w1)
             \<lparr>popup := Some (if turn e b then ''Checkmate! Black wins!''
                             else ''Checkmate! White wins!'')\<rparr>
         else w1)"

text \<open>
  \<^verbatim>\<open>performMove\<close> (lines 142-173). The decoder is called up to three times: on the token,
  on the token with \<^verbatim>\<open>q\<close> appended, and, when neither move is legal, on
  \<^verbatim>\<open>self.lastReceived\<close>, which is \<^verbatim>\<open>None\<close> until the reader thread has read a message
  (\<^verbatim>\<open>from_uci(None)\<close> raises TypeError at \<^verbatim>\<open>len\<close>). Nothing catches the decoder's
  exceptions.
\<close>

definition performMove :: "'b rules_engine \<Rightarrow> string \<Rightarrow> 'b main_window \<Rightarrow> (bool, 'b main_window) outcome" where
  "performMove e tok w =
     (case from_uci tok of
        Inl err \<Rightarrow> Raised err w
      | Inr m \<Rightarrow>
          if is_legal e (chessboard w) m then Returned True (updateMoveOnboard e m w)
          else
            (case from_uci (tok @ ''q'') of
               Inl err \<Rightarrow> Raised err w
             | Inr mq \<Rightarrow>
                 if is_legal e (chessboard w) mq then Returned True (updateMoveOnboard e mq w)
                 else
                   (let w1 = logging Error ''Move not legal'' w in
                    case lastReceived w1 of
                      None \<Rightarrow> Raised TypeError w1
                    | Some r \<Rightarrow>
                        (case from_uci r of
                           Inl err \<Rightarrow> Raised err w1
                         | Inr lm \<Rightarrow> Returned False (w1\<lparr>lastMove := Some lm\<rparr>)))))"

text \<open>
  One turn of the \<^verbatim>\<open>while True\<close> loop of \<^verbatim>\<open>_socketReader\<close> (lines 99-105), on the chunk
  that \<^verbatim>\<open>recv\<close> returned.
\<close>

definition socketReader_step :: "'b rules_engine \<Rightarrow> string \<Rightarrow> 'b main_window \<Rightarrow> (unit, 'b main_window) outcome" where
  "socketReader_step e chunk w =
     (let w1 = logging Info (''RECEIVED '' @ chunk) (w\<lparr>lastReceived := Some chunk\<rparr>) in
      if \<not> isMyMove w1 then
        (case performMove e chunk w1 of
           Raised err w2 \<Rightarrow> Raised err w2
         | Returned ok w2 \<Rightarrow>
             if ok then Returned () (logging Info ''My Move:True'' (w2\<lparr>isMyMove := True\<rparr>))
             else Returned () w2)
      else Returned () w1)"

text \<open>
  \<^verbatim>\<open>_socketReader\<close> on the chunks the socket delivers, in order. The loop has no exit: it
  ends only by an exception, which ends the thread with the later chunks unread. With
  every chunk consumed the thread blocks in \<^verbatim>\<open>recv\<close>; \<open>Returned ()\<close> stands for that.
\<close>

fun socketReader :: "'b rules_engine \<Rightarrow> string list \<Rightarrow> 'b main_window \<Rightarrow> (unit, 'b main_window) outcome" where
  "socketReader e [] w = Returned () w"
| "socketReader e (chunk # chunks) w =
     (case socketReader_step e chunk w of
        Raised err w1 \<Rightarrow> Raised err w1
      | Returned u w1 \<Rightarrow> socketReader e chunks w1)"

text \<open>
  A mouse press, as the tests of lines 178-181 and \<^verbatim>\<open>getPostFromCoordinates\<close> see it:
  whether the point is on the board widget, whether the left button is down, whether the
  point is inside the coordinate margin, and the two truncated quotients
  \<^verbatim>\<open>int((x - (svgX + margin)) / squareSize)\<close> and \<^verbatim>\<open>int((y - (svgY + margin)) / squareSize)\<close>,
  which the margin test keeps between 0 and 7.
\<close>

record mouse_event =
  on_chessboard :: bool
  left_button :: bool
  inside_margin :: bool
  col :: nat
  row :: nat

definition getPostFromCoordinates :: "'b main_window \<Rightarrow> mouse_event \<Rightarrow> nat \<times> nat" where
  "getPostFromCoordinates w ev =
     (let file = col ev; rank = 7 - row ev
      in if flipped w then (7 - file, 7 - rank) else (file, rank))"

text \<open>\<^verbatim>\<open>str(piece)\<close> is the piece's symbol, upper case for white; \<^verbatim>\<open>str(None)\<close> is None.\<close>

definition str_piece :: "piece option \<Rightarrow> string" where
  "str_piece p =
     (case p of
        None \<Rightarrow> ''None''
      | Some (Piece t c) \<Rightarrow> [if c then piece_symbol_upper t else piece_symbol t])"

definition str_opt :: "string option \<Rightarrow> string" where
  "str_opt s = (case s of None \<Rightarrow> ''None'' | Some t \<Rightarrow> t)"

text \<open>
  \<^verbatim>\<open>mousePressEvent\<close> (lines 176-203). A first click selects a square; a second click
  with a piece selected builds the token from the two squares' names, calls
  \<^verbatim>\<open>performMove\<close>, and on success gives the turn away and sends the token. An exception
  of \<^verbatim>\<open>performMove\<close> leaves the handler before the selection is cleared.
\<close>

definition mousePressEvent :: "'b rules_engine \<Rightarrow> mouse_event \<Rightarrow> 'b main_window \<Rightarrow> (unit, 'b main_window) outcome" where
  "mousePressEvent e ev w =
     (if isMyMove w \<and> on_chessboard ev then
        if left_button ev then
          if inside_margin ev then
            (let (file, rank) = getPostFromCoordinates w ev;
                 p = piece_at e (chessboard w) (square file rank);
                 coordinates = char_of (file + 97) # str_nat (rank + 1)
             in case fst (pieceToMove w) of
                  Some sel \<Rightarrow>
                    (let tok = str_opt (snd (pieceToMove w)) @ coordinates;
                         w1 = logging Info (''Got event '' @ tok) w
                     in case performMove e tok w1 of
                          Raised err w2 \<Rightarrow> Raised err w2
                        | Returned ok w2 \<Rightarrow>
                            (let w3 = (if ok then
                                         logging Info (''Sent '' @ tok)
                                           (w2\<lparr>isMyMove := False, sent := sent w2 @ [tok]\<rparr>)
                                       else w2)
                             in Returned ()
                                  (logging Info (''Selected: '' @ str_piece None)
                                     (w3\<lparr>pieceToMove := (None, None)\<rparr>))))
                | None \<Rightarrow>
                    (case from_uci (coordinates @ coordinates) of
                       Inl err \<Rightarrow> Raised err w
                     | Inr lm \<Rightarrow>
                         Returned ()
                           (logging Info (''Selected: '' @ str_piece p)
                              (w\<lparr>lastMove := Some lm, pieceToMove := (p, Some coordinates)\<rparr>))))
          else Returned () (logging Info ''coordinates clicked'' w)
        else Returned () w
      else Returned () w)"

text \<open>
  \<^verbatim>\<open>__init__\<close> (lines 61-81) up to the call of \<^verbatim>\<open>connectNetwork\<close>. \<open>ip\<close> is the
  \<^verbatim>\<open>--ip\<close> argument (\<open>None\<close> when absent; an empty string is as good as absent), \<open>wsize\<close>
  the \<^verbatim>\<open>size\<close> argument and \<open>rnd\<close> what \<^verbatim>\<open>random.randint(0, 959)\<close> returns. The
  call \<^verbatim>\<open>resizeWindow(300, 300, size, size)\<close> of line 67 logs its four arguments (line 85);
  the geometry it then computes is not modelled.
\<close>

definition has_ip :: "string option \<Rightarrow> bool" where
  "has_ip ip = (case ip of None \<Rightarrow> False | Some a \<Rightarrow> a \<noteq> [])"

definition init_window :: "'b rules_engine \<Rightarrow> bool \<Rightarrow> string option \<Rightarrow> int \<Rightarrow> nat \<Rightarrow> 'b main_window" where
  "init_window e c960 ip wsize rnd =
     \<lparr>is960 = c960,
      chessboard = (if c960 then from_chess960_pos e rnd else Board e),
      pieceToMove = (None, None),
      flipped = has_ip ip,
      isMyMove = (\<not> has_ip ip),
      lastMove = None,
      check = None,
      lastReceived = None,
      popup = None,
      sent = [],
      updates = 0,
      logged = [(Info, ''TopX: 300, TopY:300, width:'' @ str_int wsize @ '', height:'' @ str_int wsize)]\<rparr>"

text \<open>
  \<^verbatim>\<open>connectNetwork\<close> (lines 107-127). The host sends the FEN of its board once; the
  client replaces its board by the one it builds from the first chunk it receives,
  \<open>received\<close>, in the variant its own \<^verbatim>\<open>--c960\<close> flag names. Starting the reader thread
  changes no field. Failures of bind, accept and connect are not modelled.
\<close>

definition connectNetwork :: "'b rules_engine \<Rightarrow> string option \<Rightarrow> string \<Rightarrow> 'b main_window \<Rightarrow> (unit, 'b main_window) outcome" where
  "connectNetwork e ip received w =
     (if \<not> has_ip ip then
        (let f = fen e (chessboard w)
         in Returned () ((logging Critical (''FEN '' @ f) w)\<lparr>sent := sent w @ [f]\<rparr>))
      else
        (let w1 = logging Critical (''FEN '' @ received) w
         in case from_fen e received (is960 w1) of
              None \<Rightarrow> Raised ValueError w1
            | Some b \<Rightarrow> Returned () (w1\<lparr>chessboard := b\<rparr>)))"

definition MainWindow :: "'b rules_engine \<Rightarrow> bool \<Rightarrow> string option \<Rightarrow> int \<Rightarrow> nat \<Rightarrow> string \<Rightarrow> (unit, 'b main_window) outcome" where
  "MainWindow e c960 ip wsize rnd received = connectNetwork e ip received (init_window e c960 ip wsize rnd)"

text \<open>
  The window after a sequence of mouse presses, each handled by \<^verbatim>\<open>mousePressEvent\<close>. A
  handler that raises leaves the window as it was at the raise; the event loop goes on
  with the next event.
\<close>

fun after_presses :: "'b rules_engine \<Rightarrow> mouse_event list \<Rightarrow> 'b main_window \<Rightarrow> 'b main_window" where
  "after_presses e [] w = w"
| "after_presses e (ev # evs) w = after_presses e evs (state_of (mousePressEvent e ev w))"

subsection \<open>A rules engine to run the window on\<close>

text \<open>
  The statements about the window hold for every rules engine. To run the window on
  concrete games, the record is also filled in with the rules of standard chess: a
  position is the 64 squares (a1 first, as \<^verbatim>\<open>chess.SQUARES\<close>), the side to move, the
  squares of the rooks that may still castle, the en-passant square and the two move
  counters, as the fields of a FEN. Legality is pseudo-legality (the piece's movement, the
  pawn rules, castling with king and rook on their standard squares) together with the own
  king not being attacked after the move. Castling by the Chess960 rule, with the king
  not on the e-file, is not part of this engine; the Chess960 flag of the FEN reader makes
  no difference to it.
\<close>

record position =
  squares :: "piece option list"
  side :: bool
  castling_rights :: "nat list"
  ep_square :: "nat option"
  halfmove_clock :: nat
  fullmove_number :: nat

definition square_file :: "nat \<Rightarrow> nat" where
  "square_file s = s mod 8"

definition square_rank :: "nat \<Rightarrow> nat" where
  "square_rank s = s div 8"

fun any_of :: "('a \<Rightarrow> bool) \<Rightarrow> 'a list \<Rightarrow> bool" where
  "any_of P [] = False"
| "any_of P (x # xs) = (if P x then True else any_of P xs)"

fun all_of :: "('a \<Rightarrow> bool) \<Rightarrow> 'a list \<Rightarrow> bool" where
  "all_of P [] = True"
| "all_of P (x # xs) = (if P x then all_of P xs else False)"

definition chess_piece_at :: "position \<Rightarrow> nat \<Rightarrow> piece option" where
  "chess_piece_at pos s = (if s < length (squares pos) then squares pos ! s else None)"

fun pieces_from :: "nat \<Rightarrow> piece option list \<Rightarrow> (nat \<times> piece) list" where
  "pieces_from n [] = []"
| "pieces_from n (None # xs) = pieces_from (Suc n) xs"
| "pieces_from n (Some p # xs) = (n, p) # pieces_from (Suc n) xs"

definition occupied :: "position \<Rightarrow> (nat \<times> piece) list" where
  "occupied pos = pieces_from 0 (squares pos)"

definition between :: "nat \<Rightarrow> nat \<Rightarrow> nat list" where
  "between f t =
     (let ff = int (square_file f); rf = int (square_rank f);
          df = int (square_file t) - ff; dr = int (square_rank t) - rf;
          n = nat (max \<bar>df\<bar> \<bar>dr\<bar>)
      in map (\<lambda>k. nat ((rf + int k * sgn dr) * 8 + (ff + int k * sgn df))) [1..<n])"

definition path_clear :: "position \<Rightarrow> nat \<Rightarrow> nat \<Rightarrow> bool" where
  "path_clear pos f t = all_of (\<lambda>s. chess_piece_at pos s = None) (between f t)"

definition attacks :: "position \<Rightarrow> nat \<Rightarrow> piece \<Rightarrow> nat \<Rightarrow> bool" where
  "attacks pos f p t =
     (let df = int (square_file t) - int (square_file f);
          dr = int (square_rank t) - int (square_rank f)
      in if f = t then False
         else (case ptype p of
                 PAWN \<Rightarrow> \<bar>df\<bar> = 1 \<and> dr = (if pcolor p then 1 else - 1)
               | KNIGHT \<Rightarrow> (\<bar>df\<bar> = 1 \<and> \<bar>dr\<bar> = 2) \<or> (\<bar>df\<bar> = 2 \<and> \<bar>dr\<bar> = 1)
               | BISHOP \<Rightarrow> (if \<bar>df\<bar> = \<bar>dr\<bar> then path_clear pos f t else False)
               | ROOK \<Rightarrow> (if df = 0 \<or> dr = 0 then path_clear pos f t else False)
               | QUEEN \<Rightarrow> (if df = 0 \<or> dr = 0 \<or> \<bar>df\<bar> = \<bar>dr\<bar> then path_clear pos f t else False)
               | KING \<Rightarrow> \<bar>df\<bar> \<le> 1 \<and> \<bar>dr\<bar> \<le> 1))"

definition is_attacked_by :: "position \<Rightarrow> bool \<Rightarrow> nat \<Rightarrow> bool" where
  "is_attacked_by pos c t =
     any_of (\<lambda>(f, p). if pcolor p = c then attacks pos f p t else False) (occupied pos)"

definition chess_king :: "position \<Rightarrow> bool \<Rightarrow> nat option" where
  "chess_king pos c = map_option fst (find (\<lambda>(s, p). p = Piece KING c) (occupied pos))"

definition king_attacked :: "position \<Rightarrow> bool \<Rightarrow> bool" where
  "king_attacked pos c =
     (case chess_king pos c of None \<Rightarrow> False | Some k \<Rightarrow> is_attacked_by pos (\<not> c) k)"

definition chess_is_check :: "position \<Rightarrow> bool" where
  "chess_is_check pos = king_attacked pos (side pos)"

definition back_rank :: "bool \<Rightarrow> nat" where
  "back_rank c = (if c then 0 else 7)"

definition castling_ok :: "position \<Rightarrow> bool \<Rightarrow> nat \<Rightarrow> nat \<Rightarrow> bool" where
  "castling_ok pos c f t =
     (let r = back_rank c * 8
      in if f = r + 4 \<and> t = r + 6 then
           (if List.member (castling_rights pos) (r + 7) \<and>
               chess_piece_at pos (r + 7) = Some (Piece ROOK c) \<and>
               all_of (\<lambda>s. chess_piece_at pos s = None) [r + 5, r + 6]
            then all_of (\<lambda>s. \<not> is_attacked_by pos (\<not> c) s) [r + 4, r + 5, r + 6]
            else False)
         else if f = r + 4 \<and> t = r + 2 then
           (if List.member (castling_rights pos) r \<and>
               chess_piece_at pos r = Some (Piece ROOK c) \<and>
               all_of (\<lambda>s. chess_piece_at pos s = None) [r + 1, r + 2, r + 3]
            then all_of (\<lambda>s. \<not> is_attacked_by pos (\<not> c) s) [r + 4, r + 3, r + 2]
            else False)
         else False)"

definition pawn_move_ok :: "position \<Rightarrow> bool \<Rightarrow> nat \<Rightarrow> nat \<Rightarrow> piece_type option \<Rightarrow> bool" where
  "pawn_move_ok pos c f t pr =
     (let df = int (square_file t) - int (square_file f);
          dr = int (square_rank t) - int (square_rank f);
          fwd = (if c then 1 else - 1);
          target = chess_piece_at pos t
      in if (if df = 0 \<and> dr = fwd then target = None
             else if df = 0 \<and> dr = 2 * fwd then
               square_rank f = (if c then 1 else 6) \<and> target = None \<and> path_clear pos f t
             else if \<bar>df\<bar> = 1 \<and> dr = fwd then
               (case target of None \<Rightarrow> ep_square pos = Some t | Some q \<Rightarrow> pcolor q \<noteq> c)
             else False)
         then (if square_rank t = back_rank (\<not> c)
               then List.member [Some QUEEN, Some ROOK, Some BISHOP, Some KNIGHT] pr
               else pr = None)
         else False)"

definition is_pseudo_legal :: "position \<Rightarrow> move \<Rightarrow> bool" where
  "is_pseudo_legal pos m =
     (let f = from_square m; t = to_square m
      in if f < 64 \<and> t < 64 then
           (case chess_piece_at pos f of
              None \<Rightarrow> False
            | Some p \<Rightarrow>
                if pcolor p = side pos then
                  (if ptype p = PAWN then pawn_move_ok pos (pcolor p) f t (promotion m)
                   else if promotion m = None then
                     (if ptype p = KING \<and> castling_ok pos (pcolor p) f t then True
                      else (case chess_piece_at pos t of
                              None \<Rightarrow> attacks pos f p t
                            | Some q \<Rightarrow> if pcolor q \<noteq> pcolor p then attacks pos f p t else False))
                   else False)
                else False)
         else False)"

definition chess_push :: "position \<Rightarrow> move \<Rightarrow> position" where
  "chess_push pos m =
     (let f = from_square m; t = to_square m; c = side pos
      in case chess_piece_at pos f of
           None \<Rightarrow> pos\<lparr>side := \<not> c, ep_square := None,
                       halfmove_clock := Suc (halfmove_clock pos),
                       fullmove_number := fullmove_number pos + (if c then 0 else 1)\<rparr>
         | Some (Piece ty pc) \<Rightarrow>
             (let target = chess_piece_at pos t;
                  ff = square_file f; tf = square_file t; fr = square_rank f; tr = square_rank t;
                  is_ep = (ty = PAWN \<and> ff \<noteq> tf \<and> target = None);
                  is_castle = (ty = KING \<and> (tf = ff + 2 \<or> ff = tf + 2));
                  placed = Piece (case promotion m of None \<Rightarrow> ty | Some p \<Rightarrow> p) pc;
                  s1 = (squares pos)[f := None, t := Some placed];
                  s2 = (if is_ep then s1[square tf fr := None] else s1);
                  s3 = (if is_castle then
                          (if tf > ff then s2[square 7 fr := None, square 5 fr := Some (Piece ROOK pc)]
                           else s2[square 0 fr := None, square 3 fr := Some (Piece ROOK pc)])
                        else s2);
                  rights = filter (\<lambda>r. r \<noteq> f \<and> r \<noteq> t \<and> \<not> (ty = KING \<and> square_rank r = back_rank pc))
                             (castling_rights pos)
              in \<lparr>squares = s3, side = (\<not> c), castling_rights = rights,
                  ep_square = (if ty = PAWN \<and> (tr = fr + 2 \<or> fr = tr + 2)
                               then Some (square ff ((fr + tr) div 2)) else None),
                  halfmove_clock = (if ty = PAWN \<or> target \<noteq> None then 0 else Suc (halfmove_clock pos)),
                  fullmove_number = fullmove_number pos + (if c then 0 else 1)\<rparr>))"

definition chess_is_legal :: "position \<Rightarrow> move \<Rightarrow> bool" where
  "chess_is_legal pos m =
     (if is_pseudo_legal pos m then \<not> king_attacked (chess_push pos m) (side pos) else False)"

definition promotions :: "piece_type option list" where
  "promotions = [None, Some QUEEN, Some ROOK, Some BISHOP, Some KNIGHT]"

definition has_legal_move :: "position \<Rightarrow> bool" where
  "has_legal_move pos =
     any_of (\<lambda>(f, p).
        if pcolor p = side pos then
          any_of (\<lambda>t. any_of (\<lambda>pr. chess_is_legal pos \<lparr>from_square = f, to_square = t, promotion = pr\<rparr>)
                         (if ptype p = PAWN then promotions else [None]))
            [0..<64]
        else False) (occupied pos)"

definition chess_is_checkmate :: "position \<Rightarrow> bool" where
  "chess_is_checkmate pos = (if chess_is_check pos then \<not> has_legal_move pos else False)"

definition back_row :: "bool \<Rightarrow> piece option list" where
  "back_row c = map (\<lambda>t. Some (Piece t c)) [ROOK, KNIGHT, BISHOP, QUEEN, KING, BISHOP, KNIGHT, ROOK]"

definition starting_position :: position where
  "starting_position =
     \<lparr>squares = back_row True @ replicate 8 (Some (Piece PAWN True)) @ replicate 32 None @
                replicate 8 (Some (Piece PAWN False)) @ back_row False,
      side = True, castling_rights = [0, 7, 56, 63], ep_square = None,
      halfmove_clock = 0, fullmove_number = 1\<rparr>"


text \<open>The starting array of Chess960 position \<open>n\<close> under the standard numbering (518 is the standard array).\<close>

fun insert_at_free :: "nat \<Rightarrow> 'a \<Rightarrow> 'a option list \<Rightarrow> 'a option list" where
  "insert_at_free k v [] = []"
| "insert_at_free k v (Some x # xs) = Some x # insert_at_free k v xs"
| "insert_at_free 0 v (None # xs) = Some v # xs"
| "insert_at_free (Suc k) v (None # xs) = None # insert_at_free k v xs"

definition knight_table :: "(nat \<times> nat) list" where
  "knight_table = [(0, 1), (0, 2), (0, 3), (0, 4), (1, 2), (1, 3), (1, 4), (2, 3), (2, 4), (3, 4)]"

definition chess960_row :: "nat \<Rightarrow> piece_type option list" where
  "chess960_row n =
     (let bw = n mod 4; n1 = n div 4; bb = n1 mod 4; n2 = n1 div 4; q = n2 mod 6;
          (k1, k2) = knight_table ! ((n2 div 6) mod 10);
          r0 = (replicate 8 None)[bw * 2 + 1 := Some BISHOP, bb * 2 := Some BISHOP];
          r1 = insert_at_free q QUEEN r0;
          r2 = insert_at_free k1 KNIGHT (insert_at_free k2 KNIGHT r1);
          r3 = insert_at_free 0 ROOK r2;
          r4 = insert_at_free 0 KING r3
      in insert_at_free 0 ROOK r4)"

definition chess_from_chess960_pos :: "nat \<Rightarrow> position" where
  "chess_from_chess960_pos n =
     (let row = chess960_row n;
          rooks = map fst (filter (\<lambda>(i, t). t = Some ROOK) (zip [0..<8] row))
      in \<lparr>squares = map (map_option (\<lambda>t. Piece t True)) row @ replicate 8 (Some (Piece PAWN True)) @
                   replicate 32 None @ replicate 8 (Some (Piece PAWN False)) @
                   map (map_option (\<lambda>t. Piece t False)) row,
          side = True, castling_rights = rooks @ map (\<lambda>r. r + 56) rooks, ep_square = None,
          halfmove_clock = 0, fullmove_number = 1\<rparr>)"

text \<open>Writing a position as FEN; the en-passant square is written only when a capture on it is legal.\<close>

definition piece_char :: "piece \<Rightarrow> char" where
  "piece_char p = (if pcolor p then piece_symbol_upper (ptype p) else piece_symbol (ptype p))"

fun fen_row :: "nat \<Rightarrow> piece option list \<Rightarrow> string" where
  "fen_row n [] = (if n = 0 then [] else str_nat n)"
| "fen_row n (None # xs) = fen_row (Suc n) xs"
| "fen_row n (Some p # xs) = (if n = 0 then [] else str_nat n) @ piece_char p # fen_row 0 xs"

fun join :: "'a list \<Rightarrow> 'a list list \<Rightarrow> 'a list" where
  "join sep [] = []"
| "join sep [x] = x"
| "join sep (x # y # ys) = x @ sep @ join sep (y # ys)"

definition board_fen :: "position \<Rightarrow> string" where
  "board_fen pos =
     join ''/'' (map (\<lambda>r. fen_row 0 (take 8 (drop (8 * r) (squares pos)))) [7, 6, 5, 4, 3, 2, 1, 0])"

definition castling_side :: "position \<Rightarrow> bool \<Rightarrow> bool \<Rightarrow> bool" where
  "castling_side pos c kingside =
     (case chess_king pos c of
        None \<Rightarrow> False
      | Some k \<Rightarrow>
          square_rank k = back_rank c \<and>
          any_of (\<lambda>r. square_rank r = back_rank c \<and> chess_piece_at pos r = Some (Piece ROOK c) \<and>
                       (if kingside then k < r else r < k)) (castling_rights pos))"

definition castling_fen :: "position \<Rightarrow> string" where
  "castling_fen pos =
     (let s = (if castling_side pos True True then ''K'' else []) @
              (if castling_side pos True False then ''Q'' else []) @
              (if castling_side pos False True then ''k'' else []) @
              (if castling_side pos False False then ''q'' else [])
      in if s = [] then ''-'' else s)"

definition has_legal_en_passant :: "position \<Rightarrow> bool" where
  "has_legal_en_passant pos =
     (case ep_square pos of
        None \<Rightarrow> False
      | Some t \<Rightarrow>
          any_of (\<lambda>(f, p). if p = Piece PAWN (side pos)
                            then chess_is_legal pos \<lparr>from_square = f, to_square = t, promotion = None\<rparr>
                            else False) (occupied pos))"

definition chess_fen :: "position \<Rightarrow> string" where
  "chess_fen pos =
     join '' '' [board_fen pos, (if side pos then ''w'' else ''b''), castling_fen pos,
                 (case ep_square pos of
                    None \<Rightarrow> ''-''
                  | Some t \<Rightarrow> if has_legal_en_passant pos then SQUARE_NAMES ! t else ''-''),
                 str_nat (halfmove_clock pos), str_nat (fullmove_number pos)]"

text \<open>Reading a FEN of six fields; \<open>None\<close> stands for the ValueError of a text that is no FEN.\<close>

fun split_acc :: "char \<Rightarrow> string \<Rightarrow> string \<Rightarrow> string list" where
  "split_acc c acc [] = [rev acc]"
| "split_acc c acc (x # xs) =
     (if x = c then rev acc # split_acc c [] xs else split_acc c (x # acc) xs)"

definition split_on :: "char \<Rightarrow> string \<Rightarrow> string list" where
  "split_on c s = split_acc c [] s"

definition digit_value :: "char \<Rightarrow> nat option" where
  "digit_value ch = index_of ''0123456789'' ch"

fun parse_nat_acc :: "nat \<Rightarrow> string \<Rightarrow> nat option" where
  "parse_nat_acc n [] = Some n"
| "parse_nat_acc n (ch # cs) =
     (case digit_value ch of None \<Rightarrow> None | Some d \<Rightarrow> parse_nat_acc (10 * n + d) cs)"

definition parse_nat :: "string \<Rightarrow> nat option" where
  "parse_nat s = (if s = [] then None else parse_nat_acc 0 s)"

definition char_piece :: "char \<Rightarrow> piece option" where
  "char_piece ch =
     (case map_of PIECE_SYMBOLS ch of
        Some t \<Rightarrow> Some (Piece t False)
      | None \<Rightarrow> map_of (map (\<lambda>(s, t). (piece_char (Piece t True), Piece t True)) PIECE_SYMBOLS) ch)"

fun parse_row :: "string \<Rightarrow> piece option list option" where
  "parse_row [] = Some []"
| "parse_row (ch # cs) =
     (case parse_row cs of
        None \<Rightarrow> None
      | Some r \<Rightarrow>
          (case char_piece ch of
             Some p \<Rightarrow> Some (Some p # r)
           | None \<Rightarrow>
               (case digit_value ch of
                  None \<Rightarrow> None
                | Some d \<Rightarrow> if 1 \<le> d \<and> d \<le> 8 then Some (replicate d None @ r) else None)))"

fun sequence :: "'a option list \<Rightarrow> 'a list option" where
  "sequence [] = Some []"
| "sequence (None # xs) = None"
| "sequence (Some x # xs) = map_option ((#) x) (sequence xs)"

definition parse_castling :: "piece option list \<Rightarrow> string \<Rightarrow> nat list option" where
  "parse_castling sq s =
     (if s = ''-'' then Some []
      else if s \<noteq> [] \<and> all_of (\<lambda>ch. List.member ''KQkq'' ch) s then
        Some (concat (map (\<lambda>ch.
          (let c = (ch = CHR ''K'' \<or> ch = CHR ''Q''); kingside = (ch = CHR ''K'' \<or> ch = CHR ''k'');
               base = back_rank c * 8;
               ks = filter (\<lambda>i. sq ! (base + i) = Some (Piece KING c)) [0..<8];
               rs = filter (\<lambda>i. sq ! (base + i) = Some (Piece ROOK c) \<and>
                                 (case ks of [] \<Rightarrow> False | k # _ \<Rightarrow> if kingside then k < i else i < k)) [0..<8]
           in (case rs of [] \<Rightarrow> [] | _ \<Rightarrow> [base + (if kingside then last rs else hd rs)]))) s))
      else None)"

definition chess_from_fen :: "string \<Rightarrow> bool \<Rightarrow> position option" where
  "chess_from_fen f v =
     (case filter (\<lambda>w. w \<noteq> []) (split_on CHR '' '' f) of
        [b, t, c, e, h, n] \<Rightarrow>
          (case sequence (map parse_row (split_on CHR ''/'' b)) of
             None \<Rightarrow> None
           | Some rows \<Rightarrow>
               if length rows = 8 \<and> all_of (\<lambda>r. length r = 8) rows \<and> (t = ''w'' \<or> t = ''b'') then
                 (let sq = concat (rev rows) in
                  case (parse_castling sq c,
                        (if e = ''-'' then Some None else map_option Some (index_of SQUARE_NAMES e)),
                        parse_nat h, parse_nat n) of
                    (Some cr, Some ep, Some hm, Some fm) \<Rightarrow>
                      Some \<lparr>squares = sq, side = (t = ''w''), castling_rights = sort cr,
                            ep_square = ep, halfmove_clock = hm, fullmove_number = fm\<rparr>
                  | _ \<Rightarrow> None)
               else None)
      | _ \<Rightarrow> None)"

definition chess_engine :: "position rules_engine" where
  "chess_engine =
     \<lparr>Board = starting_position,
      from_chess960_pos = chess_from_chess960_pos,
      from_fen = chess_from_fen,
      fen = chess_fen,
      is_legal = chess_is_legal,
      push = chess_push,
      is_check = chess_is_check,
      is_checkmate = chess_is_checkmate,
      king = chess_king,
      turn = side,
      piece_at = chess_piece_at\<rparr>"

subsection \<open>Tokens of the local side and windows to run\<close>

text \<open>
  The square name and the token that \<^verbatim>\<open>mousePressEvent\<close> builds from a press (lines 182-187).
\<close>

definition click_coordinates :: "'b main_window \<Rightarrow> mouse_event \<Rightarrow> string" where
  "click_coordinates w ev =
     (let (file, rank) = getPostFromCoordinates w ev in char_of (file + 97) # str_nat (rank + 1))"

definition click_token :: "'b main_window \<Rightarrow> mouse_event \<Rightarrow> string" where
  "click_token w ev = str_opt (snd (pieceToMove w)) @ click_coordinates w ev"

text \<open>A left-button press inside the board, on the square in column \<open>c\<close> and row \<open>r\<close> of the widget.\<close>

definition press :: "nat \<Rightarrow> nat \<Rightarrow> mouse_event" where
  "press c r = \<lparr>on_chessboard = True, left_button = True, inside_margin = True, col = c, row = r\<rparr>"

text \<open>
  The host's window as its constructor leaves it (standard chess, no \<^verbatim>\<open>--ip\<close>,
  \<^verbatim>\<open>--size\<close> at its default of 600), and the
  client's window built from the FEN that this host sent.
\<close>

definition host_window :: "position main_window" where
  "host_window = state_of (MainWindow chess_engine False None 600 0 [])"

definition client_window :: "position main_window" where
  "client_window =
     state_of (MainWindow chess_engine False (Some ''10.0.0.2'') 600 0 (hd (sent host_window)))"

text \<open>White to move with a pawn on e7, the kings on h1 and a2.\<close>

definition promotion_position :: position where
  "promotion_position =
     \<lparr>squares = (replicate 64 None)[52 := Some (Piece PAWN True), 7 := Some (Piece KING True),
                                      8 := Some (Piece KING False)],
      side = True, castling_rights = [], ep_square = None,
      halfmove_clock = 0, fullmove_number = 1\<rparr>"

text \<open>
  The host plays white in Fool's Mate: each move of its own is two presses (the squares
  f2, f3 and g2, g4 as columns and rows of the unflipped widget), each reply is a chunk
  read by the reader thread.
\<close>

definition fools_mate_before_reply :: "position main_window" where
  "fools_mate_before_reply =
     state_of (mousePressEvent chess_engine (press 6 4)
       (state_of (mousePressEvent chess_engine (press 6 6)
         (state_of (socketReader_step chess_engine ''e7e5''
           (state_of (mousePressEvent chess_engine (press 5 5)
             (state_of (mousePressEvent chess_engine (press 5 6) host_window)))))))))"

definition fools_mate_window :: "position main_window" where
  "fools_mate_window = state_of (socketReader_step chess_engine ''d8h4'' fools_mate_before_reply)"

text \<open>The window of the host with the promotion position on its board.\<close>

definition promotion_window :: "position main_window" where
  "promotion_window = (init_window chess_engine False None 600 0)\<lparr>chessboard := promotion_position\<rparr>"

text \<open>The host's window after a press on e2: its own pawn is selected.\<close>

definition e2_selected :: "position main_window" where
  "e2_selected = state_of (mousePressEvent chess_engine (press 4 6) host_window)"

text \<open>The four moves of Fool's Mate, the positions they lead to, and the host's log before the mate.\<close>

definition fools_mate_moves :: "move list" where
  "fools_mate_moves =
     [\<lparr>from_square = 13, to_square = 21, promotion = None\<rparr>,
      \<lparr>from_square = 52, to_square = 36, promotion = None\<rparr>,
      \<lparr>from_square = 14, to_square = 30, promotion = None\<rparr>,
      \<lparr>from_square = 59, to_square = 31, promotion = None\<rparr>]"

definition position_after :: "move list \<Rightarrow> position" where
  "position_after ms = foldl chess_push starting_position ms"

definition fools_mate_log :: "(level \<times> string) list" where
  "fools_mate_log =
     [(Info, ''TopX: 300, TopY:300, width:600, height:600''),
      (Critical, ''FEN rnbqkbnr/pppppppp/8/8/8/8/PPPPPPPP/RNBQKBNR w KQkq - 0 1''),
      (Info, ''Selected: P''), (Info, ''Got event f2f3''), (Info, ''Sent f2f3''),
      (Info, ''Selected: None''), (Info, ''RECEIVED e7e5''), (Info, ''My Move:True''),
      (Info, ''Selected: P''), (Info, ''Got event g2g4''), (Info, ''Sent g2g4''),
      (Info, ''Selected: None'')]"

text \<open>The host has clicked the empty square e5 and then its pawn on d2.\<close>

definition d2_selected :: "position main_window" where
  "d2_selected = after_presses chess_engine [press 4 3, press 3 6] host_window"

section \<open>Properties\<close>

subsection \<open>What \<^verbatim>\<open>performMove\<close> does to the window\<close>

lemma from_uci_error: "from_uci t = Inl err \<Longrightarrow> err = ValueError"
  by (auto simp: from_uci_def split: if_splits option.splits)

lemma updateMoveOnboard_fields:
  "isMyMove (updateMoveOnboard e m w) = isMyMove w"
  "lastReceived (updateMoveOnboard e m w) = lastReceived w"
  "chessboard (updateMoveOnboard e m w) = push e (chessboard w) m"
  "updates (updateMoveOnboard e m w) = Suc (updates w)"
  "lastMove (updateMoveOnboard e m w) = Some m"
  "sent (updateMoveOnboard e m w) = sent w"
  by (simp_all add: updateMoveOnboard_def Let_def logging_def)

lemma performMove_cases:
  "(\<exists>m. is_legal e (chessboard w) m \<and> performMove e tok w = Returned True (updateMoveOnboard e m w)) \<or>
   (\<exists>lm. performMove e tok w = Returned False ((logging Error ''Move not legal'' w)\<lparr>lastMove := Some lm\<rparr>)) \<or>
   (\<exists>err. performMove e tok w = Raised err w) \<or>
   (\<exists>err. performMove e tok w = Raised err (logging Error ''Move not legal'' w))"
  by (auto simp: performMove_def Let_def split: sum.splits option.splits)

lemma performMove_isMyMove: "isMyMove (state_of (performMove e tok w)) = isMyMove w"
  using performMove_cases[of e w tok] by (auto simp: updateMoveOnboard_fields logging_def)

lemma performMove_lastReceived: "lastReceived (state_of (performMove e tok w)) = lastReceived w"
  using performMove_cases[of e w tok] by (auto simp: updateMoveOnboard_fields logging_def)

lemma performMove_failed_board:
  "returned (performMove e tok w) \<noteq> Some True \<Longrightarrow>
     chessboard (state_of (performMove e tok w)) = chessboard w \<and>
     updates (state_of (performMove e tok w)) = updates w"
  using performMove_cases[of e w tok] by (auto simp: logging_def)

lemma performMove_success:
  "returned (performMove e tok w) = Some True \<Longrightarrow>
     \<exists>m. is_legal e (chessboard w) m \<and> state_of (performMove e tok w) = updateMoveOnboard e m w"
  using performMove_cases[of e w tok] by auto

lemma performMove_isMyMove_indep:
  "returned (performMove e tok (w\<lparr>isMyMove := x\<rparr>)) = returned (performMove e tok w) \<and>
   chessboard (state_of (performMove e tok (w\<lparr>isMyMove := x\<rparr>))) = chessboard (state_of (performMove e tok w))"
  by (simp add: performMove_def Let_def logging_def updateMoveOnboard_def split: sum.splits option.splits)

lemma mousePressEvent_second_press:
  assumes "isMyMove w" "on_chessboard ev" "left_button ev" "inside_margin ev"
    and "fst (pieceToMove w) \<noteq> None"
  shows "mousePressEvent e ev w =
     (case performMove e (click_token w ev) (logging Info (''Got event '' @ click_token w ev) w) of
        Raised err w2 \<Rightarrow> Raised err w2
      | Returned ok w2 \<Rightarrow>
          Returned ()
            (logging Info ''Selected: None''
               ((if ok then logging Info (''Sent '' @ click_token w ev)
                              (w2\<lparr>isMyMove := False, sent := sent w2 @ [click_token w ev]\<rparr>)
                 else w2)\<lparr>pieceToMove := (None, None)\<rparr>)))"
proof -
  obtain sel where s: "fst (pieceToMove w) = Some sel" using assms(5) by auto
  obtain fl rk where fr: "getPostFromCoordinates w ev = (fl, rk)" by (cases "getPostFromCoordinates w ev")
  have tok: "click_token w ev = str_opt (snd (pieceToMove w)) @ char_of (fl + 97) # str_nat (rk + 1)"
    by (simp add: click_token_def click_coordinates_def fr)
  show ?thesis
    unfolding mousePressEvent_def tok
    by (simp only: assms s fr Let_def str_piece_def split_conv if_True simp_thms option.case
          append_Cons append_Nil)
qed

lemma mousePressEvent_lastReceived:
  "lastReceived (state_of (mousePressEvent e ev w)) = lastReceived w"
proof (cases "isMyMove w \<and> on_chessboard ev \<and> left_button ev \<and> inside_margin ev")
  case False
  then show ?thesis by (auto simp: mousePressEvent_def logging_def)
next
  case True
  show ?thesis
  proof (cases "fst (pieceToMove w)")
    case None
    obtain fl rk where fr: "getPostFromCoordinates w ev = (fl, rk)"
      by (cases "getPostFromCoordinates w ev")
    show ?thesis
      using True None fr
      by (simp add: mousePressEvent_def Let_def logging_def del: str_nat.simps split: sum.splits)
  next
    case (Some sel)
    define tok where "tok = click_token w ev"
    define w1 where "w1 = logging Info (''Got event '' @ tok) w"
    have l: "lastReceived (state_of (performMove e tok w1)) = lastReceived w"
      unfolding performMove_lastReceived w1_def by (simp add: logging_def)
    have u: "mousePressEvent e ev w =
       (case performMove e tok w1 of
          Raised err w2 \<Rightarrow> Raised err w2
        | Returned ok w2 \<Rightarrow>
            Returned ()
              (logging Info ''Selected: None''
                 ((if ok then logging Info (''Sent '' @ tok)
                                (w2\<lparr>isMyMove := False, sent := sent w2 @ [tok]\<rparr>)
                   else w2)\<lparr>pieceToMove := (None, None)\<rparr>)))"
      unfolding tok_def w1_def using True Some by (intro mousePressEvent_second_press) simp_all
    show ?thesis
    proof (cases "performMove e tok w1")
      case (Returned ok w2)
      have "lastReceived w2 = lastReceived w" using l unfolding Returned by simp
      then show ?thesis unfolding u Returned by (simp add: logging_def)
    next
      case (Raised err w2)
      have "lastReceived w2 = lastReceived w" using l unfolding Raised by simp
      then show ?thesis unfolding u Raised by simp
    qed
  qed
qed

lemma mousePressEvent_not_my_move: "\<not> isMyMove w \<Longrightarrow> mousePressEvent e ev w = Returned () w"
  by (simp add: mousePressEvent_def)

lemma after_presses_lastReceived: "lastReceived (after_presses e evs w) = lastReceived w"
  by (induction evs arbitrary: w) (simp_all add: mousePressEvent_lastReceived)

lemma after_presses_not_my_move: "\<not> isMyMove w \<Longrightarrow> after_presses e evs w = w"
  by (induction evs arbitrary: w) (simp_all add: mousePressEvent_not_my_move)

lemma MainWindow_lastReceived: "lastReceived (state_of (MainWindow e c960 ip wsize rnd r0)) = None"
  by (simp add: MainWindow_def connectNetwork_def init_window_def Let_def logging_def
      split: option.splits)

lemma MainWindow_isMyMove: "isMyMove (state_of (MainWindow e c960 ip wsize rnd r0)) = (\<not> has_ip ip)"
  by (simp add: MainWindow_def connectNetwork_def init_window_def Let_def logging_def
      split: option.splits)

lemma performMove_without_lastReceived:
  assumes "lastReceived w = None"
    and "from_uci tok = Inr m" and "\<not> is_legal e (chessboard w) m"
    and "from_uci (tok @ ''q'') = Inr mq" and "\<not> is_legal e (chessboard w) mq"
  shows "performMove e tok w = Raised TypeError (logging Error ''Move not legal'' w)"
proof -
  have "lastReceived (logging Error ''Move not legal'' w) = None"
    using assms(1) by (simp add: logging_def)
  then show ?thesis using assms(2-5) by (simp add: performMove_def Let_def)
qed

lemma socketReader_step_unfold:
  "socketReader_step e chunk w =
     (if \<not> isMyMove w then
        (case performMove e chunk (logging Info (''RECEIVED '' @ chunk) (w\<lparr>lastReceived := Some chunk\<rparr>)) of
           Raised err w2 \<Rightarrow> Raised err w2
         | Returned ok w2 \<Rightarrow>
             if ok then Returned () (logging Info ''My Move:True'' (w2\<lparr>isMyMove := True\<rparr>))
             else Returned () w2)
      else Returned () (logging Info (''RECEIVED '' @ chunk) (w\<lparr>lastReceived := Some chunk\<rparr>)))"
  by (simp add: socketReader_step_def Let_def logging_def)

lemma index_of_nth: "distinct xs \<Longrightarrow> i < length xs \<Longrightarrow> index_of xs (xs ! i) = Some i"
proof (induction xs arbitrary: i)
  case Nil
  then show ?case by simp
next
  case (Cons x xs)
  show ?case
  proof (cases i)
    case 0
    then show ?thesis by simp
  next
    case (Suc j)
    then have "xs ! j \<in> set xs" using Cons.prems by simp
    then have "x \<noteq> xs ! j" using Cons.prems by auto
    then show ?thesis using Suc Cons by simp
  qed
qed

lemma SQUARE_NAMES_length: "length SQUARE_NAMES = 64"
  by code_simp

lemma SQUARE_NAMES_distinct: "distinct SQUARE_NAMES"
  by code_simp

lemma SQUARE_NAMES_shape: "list_all (\<lambda>n. length n = 2 \<and> hd n \<noteq> CHR ''0'') SQUARE_NAMES"
  by code_simp

lemma square_name:
  assumes "i < 64"
  shows "length (SQUARE_NAMES ! i) = 2" and "hd (SQUARE_NAMES ! i) \<noteq> CHR ''0''"
    and "index_of SQUARE_NAMES (SQUARE_NAMES ! i) = Some i"
proof -
  have "SQUARE_NAMES ! i \<in> set SQUARE_NAMES"
    using assms by (simp add: SQUARE_NAMES_length)
  then show "length (SQUARE_NAMES ! i) = 2" and "hd (SQUARE_NAMES ! i) \<noteq> CHR ''0''"
    using SQUARE_NAMES_shape by (auto simp: list_all_iff)
  show "index_of SQUARE_NAMES (SQUARE_NAMES ! i) = Some i"
    using assms by (simp add: index_of_nth SQUARE_NAMES_distinct SQUARE_NAMES_length)
qed

lemma piece_symbol_decodes: "map_of PIECE_SYMBOLS (piece_symbol p) = Some p"
  by (cases p) (simp_all add: PIECE_SYMBOLS_def)

subsection \<open>Evaluations on the standard rules\<close>

lemma e7e8_decodes: "from_uci ''e7e8'' = Inr \<lparr>from_square = 52, to_square = 60, promotion = None\<rparr>"
  by code_simp

lemma e7e8q_decodes:
  "from_uci (''e7e8'' @ ''q'') = Inr \<lparr>from_square = 52, to_square = 60, promotion = Some QUEEN\<rparr>"
  by code_simp

lemma e7e8_illegal:
  "\<not> is_legal chess_engine promotion_position \<lparr>from_square = 52, to_square = 60, promotion = None\<rparr>"
  by code_simp

lemma e7e8q_legal:
  "is_legal chess_engine promotion_position \<lparr>from_square = 52, to_square = 60, promotion = Some QUEEN\<rparr>"
  by code_simp

lemma e7e8q_pushed:
  "piece_at chess_engine
     (push chess_engine promotion_position \<lparr>from_square = 52, to_square = 60, promotion = Some QUEEN\<rparr>) 60
   = Some (Piece QUEEN True)"
  by code_simp

lemma promotion_window_board: "chessboard promotion_window = promotion_position"
  by (simp add: promotion_window_def)

lemma host_window_fields:
  "isMyMove host_window \<and> lastReceived host_window = None \<and>
   chessboard host_window = starting_position \<and> pieceToMove host_window = (None, None)"
  by code_simp

lemma client_window_fields:
  "\<not> isMyMove client_window \<and> lastReceived client_window = None \<and>
   chessboard client_window = starting_position"
  by code_simp

lemma e2_selected_fields:
  "isMyMove e2_selected \<and> fst (pieceToMove e2_selected) \<noteq> None \<and>
   click_token e2_selected (press 4 4) = ''e2e4'' \<and> click_token e2_selected (press 4 3) = ''e2e5''"
  by code_simp

lemma press_gates: "on_chessboard (press c r) \<and> left_button (press c r) \<and> inside_margin (press c r)"
  by (simp add: press_def)

lemma e2e4_local_succeeds:
  "returned (performMove chess_engine (click_token e2_selected (press 4 4))
      (logging Info (''Got event '' @ click_token e2_selected (press 4 4)) e2_selected)) = Some True"
  by code_simp

lemma e2e5_local_fails:
  "returned (performMove chess_engine (click_token e2_selected (press 4 3))
      (logging Info (''Got event '' @ click_token e2_selected (press 4 3)) e2_selected)) \<noteq> Some True"
  by code_simp

lemma e2e4_remote_succeeds:
  "returned (performMove chess_engine ''e2e4''
      (logging Info (''RECEIVED '' @ ''e2e4'') (client_window\<lparr>lastReceived := Some ''e2e4''\<rparr>))) = Some True"
  by code_simp

lemma e2e5_remote_fails:
  "returned (performMove chess_engine ''e2e5''
      (logging Info (''RECEIVED '' @ ''e2e5'') (client_window\<lparr>lastReceived := Some ''e2e5''\<rparr>))) \<noteq> Some True"
  by code_simp

lemma e2_decode_fails: "from_uci ''e2'' = Inl ValueError"
  by code_simp

lemma client_applies_out_of_turn:
  "returned (performMove chess_engine ''e2e4'' client_window) = Some True \<and>
   chessboard (state_of (performMove chess_engine ''e2e4'' client_window)) =
     chess_push starting_position \<lparr>from_square = 12, to_square = 28, promotion = None\<rparr>"
  by code_simp

lemma pushed_differs:
  "chess_push starting_position \<lparr>from_square = 12, to_square = 28, promotion = None\<rparr> \<noteq> starting_position"
  by code_simp

lemma e2e5_decodes: "from_uci ''e2e5'' = Inr \<lparr>from_square = 12, to_square = 36, promotion = None\<rparr>"
  by code_simp

lemma e2e5q_decodes:
  "from_uci (''e2e5'' @ ''q'') = Inr \<lparr>from_square = 12, to_square = 36, promotion = Some QUEEN\<rparr>"
  by code_simp

lemma e2e5_illegal:
  "\<not> is_legal chess_engine starting_position \<lparr>from_square = 12, to_square = 36, promotion = None\<rparr>"
  by code_simp

lemma e2e5q_illegal:
  "\<not> is_legal chess_engine starting_position \<lparr>from_square = 12, to_square = 36, promotion = Some QUEEN\<rparr>"
  by code_simp


lemma e2e4_legal_at_start:
  "is_legal chess_engine starting_position \<lparr>from_square = 12, to_square = 28, promotion = None\<rparr> \<and>
   from_uci ''e2e4'' = Inr \<lparr>from_square = 12, to_square = 28, promotion = None\<rparr>"
  by code_simp

lemma fools_mate_before_reply_eval:
  "fools_mate_before_reply =
     \<lparr>is960 = False, chessboard = position_after (take 3 fools_mate_moves),
      pieceToMove = (None, None), flipped = False, isMyMove = False,
      lastMove = Some \<lparr>from_square = 14, to_square = 30, promotion = None\<rparr>,
      check = None, lastReceived = Some ''e7e5'', popup = None,
      sent = [''rnbqkbnr/pppppppp/8/8/8/8/PPPPPPPP/RNBQKBNR w KQkq - 0 1'', ''f2f3'', ''g2g4''],
      updates = 3, logged = fools_mate_log\<rparr>"
  by code_simp

lemma fools_mate_reply_eval:
  "performMove chess_engine ''d8h4''
     (logging Info (''RECEIVED '' @ ''d8h4'')
        (\<lparr>is960 = False, chessboard = position_after (take 3 fools_mate_moves),
          pieceToMove = (None, None), flipped = False, isMyMove = False,
          lastMove = Some \<lparr>from_square = 14, to_square = 30, promotion = None\<rparr>,
          check = None, lastReceived = Some ''e7e5'', popup = None,
          sent = [''rnbqkbnr/pppppppp/8/8/8/8/PPPPPPPP/RNBQKBNR w KQkq - 0 1'', ''f2f3'', ''g2g4''],
          updates = 3, logged = fools_mate_log\<rparr>\<lparr>lastReceived := Some ''d8h4''\<rparr>)) =
   Returned True
     \<lparr>is960 = False, chessboard = position_after fools_mate_moves,
      pieceToMove = (None, None), flipped = False, isMyMove = False,
      lastMove = Some \<lparr>from_square = 59, to_square = 31, promotion = None\<rparr>,
      check = Some 4, lastReceived = Some ''d8h4'', popup = Some ''Checkmate! Black wins!'',
      sent = [''rnbqkbnr/pppppppp/8/8/8/8/PPPPPPPP/RNBQKBNR w KQkq - 0 1'', ''f2f3'', ''g2g4''],
      updates = 4,
      logged = fools_mate_log @ [(Info, ''RECEIVED d8h4''), (Info, ''Checkmate'')]\<rparr>"
  by code_simp

lemma fools_mate_is_checkmate:
  "is_checkmate chess_engine (position_after fools_mate_moves) \<and>
   turn chess_engine (position_after fools_mate_moves)"
  by code_simp

lemma fools_mate_window_eval:
  "fools_mate_window =
     \<lparr>is960 = False, chessboard = position_after fools_mate_moves,
      pieceToMove = (None, None), flipped = False, isMyMove = True,
      lastMove = Some \<lparr>from_square = 59, to_square = 31, promotion = None\<rparr>,
      check = Some 4, lastReceived = Some ''d8h4'', popup = Some ''Checkmate! Black wins!'',
      sent = [''rnbqkbnr/pppppppp/8/8/8/8/PPPPPPPP/RNBQKBNR w KQkq - 0 1'', ''f2f3'', ''g2g4''],
      updates = 4,
      logged = fools_mate_log @ [(Info, ''RECEIVED d8h4''), (Info, ''Checkmate''), (Info, ''My Move:True'')]\<rparr>"
  using fools_mate_reply_eval
  unfolding fools_mate_window_def fools_mate_before_reply_eval
  by (simp add: socketReader_step_unfold logging_def)

lemma e7e8q_encodes:
  "uci \<lparr>from_square = 52, to_square = 60, promotion = Some QUEEN\<rparr> = Some ''e7e8q''"
  by code_simp

lemma d2_selected_fields:
  "isMyMove d2_selected \<and> fst (pieceToMove d2_selected) \<noteq> None \<and>
   click_token d2_selected (press 3 3) = ''d2d5'' \<and> chessboard d2_selected = starting_position"
  by code_simp

lemma d2d5_decodes: "from_uci ''d2d5'' = Inr \<lparr>from_square = 11, to_square = 35, promotion = None\<rparr>"
  by code_simp

lemma d2d5q_decodes:
  "from_uci (''d2d5'' @ ''q'') = Inr \<lparr>from_square = 11, to_square = 35, promotion = Some QUEEN\<rparr>"
  by code_simp

lemma d2d5_illegal:
  "\<not> is_legal chess_engine starting_position \<lparr>from_square = 11, to_square = 35, promotion = None\<rparr>"
  by code_simp

lemma d2d5q_illegal:
  "\<not> is_legal chess_engine starting_position \<lparr>from_square = 11, to_square = 35, promotion = Some QUEEN\<rparr>"
  by code_simp




subsection \<open>The queen-promotion fallback\<close>

text \<open>
  Claim C1. Whenever the token decodes to a move that is illegal on the board and the
  token with \<^verbatim>\<open>q\<close> appended decodes to a legal move, \<^verbatim>\<open>performMove\<close> applies that second
  move and returns True: the window is left exactly as by the explicit five-letter token,
  its board being the old board with the queen-promotion move pushed. For the token
  \<^verbatim>\<open>e7e8\<close> the move applied is the promotion e7-e8 to a queen.
\<close>

theorem performMove_queen_fallback:
  assumes "from_uci tok = Inr m" and "\<not> is_legal e (chessboard w) m"
    and "from_uci (tok @ ''q'') = Inr mq" and "is_legal e (chessboard w) mq"
  shows "performMove e tok w = Returned True (updateMoveOnboard e mq w) \<and>
         performMove e (tok @ ''q'') w = performMove e tok w \<and>
         chessboard (updateMoveOnboard e mq w) = push e (chessboard w) mq \<and>
         (tok = ''e7e8'' \<longrightarrow> mq = \<lparr>from_square = 52, to_square = 60, promotion = Some QUEEN\<rparr>)"
proof -
  have a: "performMove e tok w = Returned True (updateMoveOnboard e mq w)"
    using assms by (simp add: performMove_def)
  have b: "performMove e (tok @ ''q'') w = Returned True (updateMoveOnboard e mq w)"
    using assms by (simp add: performMove_def)
  have c: "from_uci ''e7e8q'' = Inr \<lparr>from_square = 52, to_square = 60, promotion = Some QUEEN\<rparr>"
    by code_simp
  show ?thesis using a b c assms(3) by (auto simp: updateMoveOnboard_fields)
qed

theorem performMove_queen_fallback_witness:
  "performMove chess_engine ''e7e8'' promotion_window =
     Returned True (updateMoveOnboard chess_engine
        \<lparr>from_square = 52, to_square = 60, promotion = Some QUEEN\<rparr> promotion_window) \<and>
   performMove chess_engine (''e7e8'' @ ''q'') promotion_window =
     performMove chess_engine ''e7e8'' promotion_window \<and>
   piece_at chess_engine (chessboard (state_of (performMove chess_engine ''e7e8'' promotion_window))) 60 =
     Some (Piece QUEEN True)"
proof -
  have i: "\<not> is_legal chess_engine (chessboard promotion_window)
             \<lparr>from_square = 52, to_square = 60, promotion = None\<rparr>"
    unfolding promotion_window_board by (rule e7e8_illegal)
  have l: "is_legal chess_engine (chessboard promotion_window)
             \<lparr>from_square = 52, to_square = 60, promotion = Some QUEEN\<rparr>"
    unfolding promotion_window_board by (rule e7e8q_legal)
  note f = performMove_queen_fallback [OF e7e8_decodes i e7e8q_decodes l]
  have q: "piece_at chess_engine
             (chessboard (updateMoveOnboard chess_engine
                \<lparr>from_square = 52, to_square = 60, promotion = Some QUEEN\<rparr> promotion_window)) 60 =
           Some (Piece QUEEN True)"
    unfolding updateMoveOnboard_fields promotion_window_board by (rule e7e8q_pushed)
  from f have p: "performMove chess_engine ''e7e8'' promotion_window =
     Returned True (updateMoveOnboard chess_engine
        \<lparr>from_square = 52, to_square = 60, promotion = Some QUEEN\<rparr> promotion_window)" by (rule conjunct1)
  from f have r: "performMove chess_engine (''e7e8'' @ ''q'') promotion_window =
     performMove chess_engine ''e7e8'' promotion_window" by blast
  show ?thesis using p r q by (simp only: state_of.simps simp_thms)
qed

subsection \<open>Turn ownership\<close>

text \<open>
  Claim C4. On the local path (a press on the board while a piece is selected, lines
  186-192) the turn flag, true before, is false afterwards exactly when \<^verbatim>\<open>performMove\<close>
  returned True; on the remote path (a chunk read while the flag is false, lines 100-105)
  the flag is true afterwards exactly when \<^verbatim>\<open>performMove\<close> returned True. So a successful
  move flips the flag and an unsuccessful one, returning False or raising, leaves it.
\<close>

theorem turn_alternation:
  "(isMyMove w \<and> on_chessboard ev \<and> left_button ev \<and> inside_margin ev \<and> fst (pieceToMove w) \<noteq> None \<longrightarrow>
      isMyMove (state_of (mousePressEvent e ev w)) =
        (returned (performMove e (click_token w ev) (logging Info (''Got event '' @ click_token w ev) w))
           \<noteq> Some True)) \<and>
   (\<not> isMyMove w \<longrightarrow>
      isMyMove (state_of (socketReader_step e chunk w)) =
        (returned (performMove e chunk (logging Info (''RECEIVED '' @ chunk) (w\<lparr>lastReceived := Some chunk\<rparr>)))
           = Some True))"
proof (intro conjI impI)
  assume g: "isMyMove w \<and> on_chessboard ev \<and> left_button ev \<and> inside_margin ev \<and> fst (pieceToMove w) \<noteq> None"
  let ?w1 = "logging Info (''Got event '' @ click_token w ev) w"
  have m: "isMyMove (state_of (performMove e (click_token w ev) ?w1)) = True"
    using g performMove_isMyMove[of e "click_token w ev" ?w1] by (simp add: logging_def)
  have s: "mousePressEvent e ev w =
     (case performMove e (click_token w ev) ?w1 of
        Raised err w2 \<Rightarrow> Raised err w2
      | Returned ok w2 \<Rightarrow>
          Returned ()
            (logging Info ''Selected: None''
               ((if ok then logging Info (''Sent '' @ click_token w ev)
                              (w2\<lparr>isMyMove := False, sent := sent w2 @ [click_token w ev]\<rparr>)
                 else w2)\<lparr>pieceToMove := (None, None)\<rparr>)))"
    using g by (intro mousePressEvent_second_press) simp_all
  show "isMyMove (state_of (mousePressEvent e ev w)) =
        (returned (performMove e (click_token w ev) ?w1) \<noteq> Some True)"
  proof (cases "performMove e (click_token w ev) ?w1")
    case (Returned ok w2)
    then show ?thesis using m s by (cases ok) (simp_all add: logging_def)
  next
    case (Raised err w2)
    then show ?thesis using m s by simp
  qed
next
  assume g: "\<not> isMyMove w"
  let ?w1 = "logging Info (''RECEIVED '' @ chunk) (w\<lparr>lastReceived := Some chunk\<rparr>)"
  have m: "isMyMove (state_of (performMove e chunk ?w1)) = False"
    using g performMove_isMyMove[of e chunk ?w1] by (simp add: logging_def)
  have n: "\<not> isMyMove ?w1" using g by (simp add: logging_def)
  show "isMyMove (state_of (socketReader_step e chunk w)) = (returned (performMove e chunk ?w1) = Some True)"
  proof (cases "performMove e chunk ?w1")
    case (Returned ok w2)
    then show ?thesis using m n by (cases ok) (simp_all add: socketReader_step_def Let_def logging_def)
  next
    case (Raised err w2)
    then show ?thesis using m n by (simp add: socketReader_step_def Let_def)
  qed
qed

theorem turn_alternation_witness:
  "isMyMove e2_selected \<and>
   \<not> isMyMove (state_of (mousePressEvent chess_engine (press 4 4) e2_selected)) \<and>
   isMyMove (state_of (mousePressEvent chess_engine (press 4 3) e2_selected)) \<and>
   \<not> isMyMove client_window \<and>
   isMyMove (state_of (socketReader_step chess_engine ''e2e4'' client_window)) \<and>
   \<not> isMyMove (state_of (socketReader_step chess_engine ''e2e5'' client_window))"
proof -
  have m: "isMyMove e2_selected" and p: "fst (pieceToMove e2_selected) \<noteq> None"
    using e2_selected_fields by simp_all
  have c: "\<not> isMyMove client_window"
    using client_window_fields by simp
  have g: "isMyMove e2_selected \<and> on_chessboard (press c r) \<and> left_button (press c r) \<and>
           inside_margin (press c r) \<and> fst (pieceToMove e2_selected) \<noteq> None" for c r
    using m p press_gates by simp
  have l1: "\<not> isMyMove (state_of (mousePressEvent chess_engine (press 4 4) e2_selected))"
    using mp [OF conjunct1 [OF turn_alternation [of e2_selected "press 4 4" chess_engine "''e2e4''"]] g]
          e2e4_local_succeeds
    by simp
  have l2: "isMyMove (state_of (mousePressEvent chess_engine (press 4 3) e2_selected))"
    using mp [OF conjunct1 [OF turn_alternation [of e2_selected "press 4 3" chess_engine "''e2e5''"]] g]
          e2e5_local_fails
    by simp
  have r1: "isMyMove (state_of (socketReader_step chess_engine ''e2e4'' client_window))"
    using mp [OF conjunct2 [OF turn_alternation [of client_window "press 4 4" chess_engine "''e2e4''"]] c]
          e2e4_remote_succeeds
    by simp
  have r2: "\<not> isMyMove (state_of (socketReader_step chess_engine ''e2e5'' client_window))"
    using mp [OF conjunct2 [OF turn_alternation [of client_window "press 4 4" chess_engine "''e2e5''"]] c]
          e2e5_remote_fails
    by simp
  show ?thesis using m l1 l2 c r1 r2 by (intro conjI)
qed

text \<open>
  Claim C3, as the code has it. \<^verbatim>\<open>performMove\<close> takes no origin and never reads the turn
  flag: its result and the board it leaves are the same whatever the flag is. The
  out-of-turn guard is in its two callers: a press while it is not the local side's turn
  changes nothing, and a chunk read while it is the local side's turn is only recorded.
\<close>

theorem out_of_turn_guard_in_callers:
  "(\<not> isMyMove w \<longrightarrow> mousePressEvent e ev w = Returned () w) \<and>
   (isMyMove w \<longrightarrow>
      socketReader_step e chunk w =
        Returned () (logging Info (''RECEIVED '' @ chunk) (w\<lparr>lastReceived := Some chunk\<rparr>))) \<and>
   returned (performMove e tok (w\<lparr>isMyMove := x\<rparr>)) = returned (performMove e tok w) \<and>
   chessboard (state_of (performMove e tok (w\<lparr>isMyMove := x\<rparr>))) =
     chessboard (state_of (performMove e tok w))"
  using performMove_isMyMove_indep[where e=e and tok=tok and w=w and x=x]
  by (simp add: mousePressEvent_def socketReader_step_def Let_def logging_def)

theorem out_of_turn_guard_in_callers_witness:
  "\<not> isMyMove client_window \<and>
   mousePressEvent chess_engine (press 4 6) client_window = Returned () client_window \<and>
   isMyMove host_window \<and>
   socketReader_step chess_engine ''e7e5'' host_window =
     Returned () (logging Info (''RECEIVED '' @ ''e7e5'') (host_window\<lparr>lastReceived := Some ''e7e5''\<rparr>))"
proof -
  have c: "\<not> isMyMove client_window" using client_window_fields by simp
  have h: "isMyMove host_window" using host_window_fields by simp
  note t1 = out_of_turn_guard_in_callers [of client_window chess_engine "press 4 6" "''e7e5''" "''e7e5''" True]
  note t2 = out_of_turn_guard_in_callers [of host_window chess_engine "press 4 6" "''e7e5''" "''e7e5''" True]
  have a: "mousePressEvent chess_engine (press 4 6) client_window = Returned () client_window"
    using mp [OF conjunct1 [OF t1] c] .
  have b: "socketReader_step chess_engine ''e7e5'' host_window =
     Returned () (logging Info (''RECEIVED '' @ ''e7e5'') (host_window\<lparr>lastReceived := Some ''e7e5''\<rparr>))"
    using mp [OF conjunct1 [OF conjunct2 [OF t2]] h] .
  show ?thesis using c a h b by (intro conjI)
qed

text \<open>
  Claim C3 as stated fails: on the client's window, whose turn it is not, \<^verbatim>\<open>performMove\<close>
  on the legal token \<^verbatim>\<open>e2e4\<close> returns True and changes the board.
\<close>

theorem performMove_has_no_turn_guard:
  "\<not> isMyMove client_window \<and>
   returned (performMove chess_engine ''e2e4'' client_window) = Some True \<and>
   chessboard (state_of (performMove chess_engine ''e2e4'' client_window)) \<noteq> chessboard client_window"
  using client_window_fields client_applies_out_of_turn pushed_differs by simp

subsection \<open>Malformed tokens\<close>

text \<open>
  Claim C5, as the code has it. A token the decoder rejects makes \<^verbatim>\<open>performMove\<close> raise
  ValueError with the window untouched. Read by the reader thread while it is the peer's
  turn, it ends the loop with that exception, the token recorded in \<^verbatim>\<open>lastReceived\<close> and
  the chunks after it never read; read while it is the local side's turn it is recorded
  and not decoded.
\<close>

theorem malformed_token_raises:
  assumes "from_uci tok = Inl err"
  shows "err = ValueError \<and>
         performMove e tok w = Raised ValueError w \<and>
         (\<not> isMyMove w \<longrightarrow>
            socketReader e (tok # rest) w =
              Raised ValueError (logging Info (''RECEIVED '' @ tok) (w\<lparr>lastReceived := Some tok\<rparr>))) \<and>
         (isMyMove w \<longrightarrow>
            socketReader_step e tok w =
              Returned () (logging Info (''RECEIVED '' @ tok) (w\<lparr>lastReceived := Some tok\<rparr>)))"
proof -
  have v: "err = ValueError" using assms by (rule from_uci_error)
  have p: "\<And>s. performMove e tok s = Raised ValueError s"
    using assms v by (simp add: performMove_def)
  show ?thesis using v p
    by (simp add: socketReader_step_def Let_def logging_def)
qed

theorem malformed_token_raises_witness:
  "from_uci ''e2'' = Inl ValueError \<and>
   performMove chess_engine ''e2'' client_window = Raised ValueError client_window \<and>
   \<not> isMyMove client_window \<and>
   socketReader chess_engine [''e2'', ''e7e5''] client_window =
     Raised ValueError (logging Info (''RECEIVED '' @ ''e2'') (client_window\<lparr>lastReceived := Some ''e2''\<rparr>)) \<and>
   isMyMove host_window \<and>
   socketReader_step chess_engine ''e2'' host_window =
     Returned () (logging Info (''RECEIVED '' @ ''e2'') (host_window\<lparr>lastReceived := Some ''e2''\<rparr>))"
proof -
  have c: "\<not> isMyMove client_window" using client_window_fields by simp
  have h: "isMyMove host_window" using host_window_fields by simp
  note t1 = malformed_token_raises [OF e2_decode_fails, of chess_engine client_window "[''e7e5'']"]
  note t2 = malformed_token_raises [OF e2_decode_fails, of chess_engine host_window "[''e7e5'']"]
  have a: "performMove chess_engine ''e2'' client_window = Raised ValueError client_window"
    using conjunct1 [OF conjunct2 [OF t1]] .
  have b: "socketReader chess_engine [''e2'', ''e7e5''] client_window =
     Raised ValueError (logging Info (''RECEIVED '' @ ''e2'') (client_window\<lparr>lastReceived := Some ''e2''\<rparr>))"
    using mp [OF conjunct1 [OF conjunct2 [OF conjunct2 [OF t1]]] c] .
  have d: "socketReader_step chess_engine ''e2'' host_window =
     Returned () (logging Info (''RECEIVED '' @ ''e2'') (host_window\<lparr>lastReceived := Some ''e2''\<rparr>))"
    using mp [OF conjunct2 [OF conjunct2 [OF conjunct2 [OF t2]]] h] .
  show ?thesis using e2_decode_fails a c b h d by (intro conjI)
qed

text \<open>
  Claim C5 as stated fails: the reader thread of the client, given the chunk \<^verbatim>\<open>e2\<close> and then
  the legal move \<^verbatim>\<open>e2e4\<close>, ends with ValueError on the first and never plays the second,
  which it plays when it comes alone; and \<^verbatim>\<open>performMove\<close> on \<^verbatim>\<open>e2\<close> raises instead of
  returning.
\<close>

theorem reader_dies_on_malformed_token:
  "socketReader chess_engine [''e2'', ''e2e4''] client_window =
     Raised ValueError (logging Info ''RECEIVED e2'' (client_window\<lparr>lastReceived := Some ''e2''\<rparr>)) \<and>
   chessboard (state_of (socketReader chess_engine [''e2'', ''e2e4''] client_window)) = starting_position \<and>
   chessboard (state_of (socketReader chess_engine [''e2e4''] client_window)) \<noteq> starting_position \<and>
   performMove chess_engine ''e2'' host_window = Raised ValueError host_window"
  by code_simp

subsection \<open>The branch of the illegal move\<close>

text \<open>
  Claim C10. Take any window reached from the constructor by mouse presses alone, so
  that no message of the peer has been read. If it is this side's turn with a piece
  selected, and the press completes a token that decodes to an illegal move whose
  queen-suffixed variant is illegal too, then the window is the host's, \<^verbatim>\<open>lastReceived\<close>
  is still \<^verbatim>\<open>None\<close>, and \<^verbatim>\<open>performMove\<close>, called by the handler after the line
  \<^verbatim>\<open>Got event\<close>, logs the error and raises TypeError from \<^verbatim>\<open>from_uci(None)\<close> instead of
  returning False; the handler ends with that exception.
\<close>

theorem illegal_local_move_raises_before_first_read:
  assumes "w = after_presses e evs (state_of (MainWindow e c960 ip wsize rnd r0))"
    and "isMyMove w" and "on_chessboard ev" and "left_button ev" and "inside_margin ev"
    and "fst (pieceToMove w) \<noteq> None"
    and "from_uci (click_token w ev) = Inr m" and "\<not> is_legal e (chessboard w) m"
    and "from_uci (click_token w ev @ ''q'') = Inr mq" and "\<not> is_legal e (chessboard w) mq"
  shows "\<not> has_ip ip \<and> lastReceived w = None \<and>
         performMove e (click_token w ev) (logging Info (''Got event '' @ click_token w ev) w) =
           Raised TypeError
             (logging Error ''Move not legal'' (logging Info (''Got event '' @ click_token w ev) w)) \<and>
         mousePressEvent e ev w =
           Raised TypeError
             (logging Error ''Move not legal'' (logging Info (''Got event '' @ click_token w ev) w))"
proof -
  let ?w0 = "state_of (MainWindow e c960 ip wsize rnd r0)"
  let ?w1 = "logging Info (''Got event '' @ click_token w ev) w"
  have host: "\<not> has_ip ip"
  proof
    assume "has_ip ip"
    then have "\<not> isMyMove ?w0" by (simp add: MainWindow_isMyMove)
    then have "w = ?w0" using assms(1) by (simp add: after_presses_not_my_move)
    then show False using assms(2) \<open>\<not> isMyMove ?w0\<close> by simp
  qed
  have none: "lastReceived w = None"
    using assms(1) by (simp add: after_presses_lastReceived MainWindow_lastReceived)
  have l1: "lastReceived ?w1 = None" and b1: "chessboard ?w1 = chessboard w"
    using none by (simp_all add: logging_def)
  have i1: "\<not> is_legal e (chessboard ?w1) m"
    unfolding b1 by (rule assms(8))
  have i2: "\<not> is_legal e (chessboard ?w1) mq"
    unfolding b1 by (rule assms(10))
  have p: "performMove e (click_token w ev) ?w1 = Raised TypeError (logging Error ''Move not legal'' ?w1)"
    by (rule performMove_without_lastReceived [OF l1 assms(7) i1 assms(9) i2])
  have q: "mousePressEvent e ev w = Raised TypeError (logging Error ''Move not legal'' ?w1)"
    unfolding mousePressEvent_second_press [OF assms(2-6)] p by simp
  show ?thesis using host none p q by (intro conjI)
qed

theorem illegal_local_move_raises_before_first_read_witness:
  "\<not> has_ip None \<and> lastReceived d2_selected = None \<and>
   performMove chess_engine ''d2d5'' (logging Info ''Got event d2d5'' d2_selected) =
     Raised TypeError (logging Error ''Move not legal'' (logging Info ''Got event d2d5'' d2_selected)) \<and>
   mousePressEvent chess_engine (press 3 3) d2_selected =
     Raised TypeError (logging Error ''Move not legal'' (logging Info ''Got event d2d5'' d2_selected))"
proof -
  have t: "click_token d2_selected (press 3 3) = ''d2d5''"
    and b: "chessboard d2_selected = starting_position"
    and y: "isMyMove d2_selected" and s: "fst (pieceToMove d2_selected) \<noteq> None"
    using d2_selected_fields by simp_all
  have w: "d2_selected =
           after_presses chess_engine [press 4 3, press 3 6]
             (state_of (MainWindow chess_engine False None 600 0 []))"
    unfolding d2_selected_def host_window_def by (rule refl)
  have g: "on_chessboard (press 3 3)" "left_button (press 3 3)" "inside_margin (press 3 3)"
    using press_gates [of 3 3] by simp_all
  have d: "from_uci (click_token d2_selected (press 3 3)) =
           Inr \<lparr>from_square = 11, to_square = 35, promotion = None\<rparr>"
    unfolding t by (rule d2d5_decodes)
  have dq: "from_uci (click_token d2_selected (press 3 3) @ ''q'') =
            Inr \<lparr>from_square = 11, to_square = 35, promotion = Some QUEEN\<rparr>"
    unfolding t by (rule d2d5q_decodes)
  have i: "\<not> is_legal chess_engine (chessboard d2_selected)
             \<lparr>from_square = 11, to_square = 35, promotion = None\<rparr>"
    unfolding b by (rule d2d5_illegal)
  have iq: "\<not> is_legal chess_engine (chessboard d2_selected)
             \<lparr>from_square = 11, to_square = 35, promotion = Some QUEEN\<rparr>"
    unfolding b by (rule d2d5q_illegal)
  have e: "''Got event '' @ ''d2d5'' = ''Got event d2d5''" by simp
  note r = illegal_local_move_raises_before_first_read [OF w y g s d i dq iq]
  show ?thesis using r unfolding t e .
qed


text \<open>
  Claim C2, on the code: the host selects its pawn on e2 and presses e5 before any message
  of the peer has arrived. The handler ends with TypeError, not with the rejection the
  claim states; the board is the starting position still. A five-letter token for an
  illegal move is suffixed to six letters, which the decoder refuses with ValueError.
\<close>

theorem illegal_first_move_of_host_raises:
  "mousePressEvent chess_engine (press 4 3) e2_selected =
     Raised TypeError (logging Error ''Move not legal'' (logging Info ''Got event e2e5'' e2_selected)) \<and>
   chessboard e2_selected = starting_position \<and>
   performMove chess_engine ''e2e4n'' client_window = Raised ValueError client_window"
  by code_simp

subsection \<open>The reader thread\<close>

text \<open>
  Claim C7, as the code has it. One turn of the reader loop always records the chunk in
  \<^verbatim>\<open>lastReceived\<close>. While it is the local side's turn nothing else happens:
  \<^verbatim>\<open>performMove\<close> is not called. While it is the peer's turn the board is the one
  \<^verbatim>\<open>performMove\<close> leaves for the chunk, and a repaint is requested exactly when
  \<^verbatim>\<open>performMove\<close> returned True.
\<close>

theorem socketReader_step_gate:
  "lastReceived (state_of (socketReader_step e chunk w)) = Some chunk \<and>
   (isMyMove w \<longrightarrow>
      socketReader_step e chunk w =
        Returned () (logging Info (''RECEIVED '' @ chunk) (w\<lparr>lastReceived := Some chunk\<rparr>))) \<and>
   (\<not> isMyMove w \<longrightarrow>
      chessboard (state_of (socketReader_step e chunk w)) =
        chessboard (state_of (performMove e chunk
           (logging Info (''RECEIVED '' @ chunk) (w\<lparr>lastReceived := Some chunk\<rparr>)))) \<and>
      updates (state_of (socketReader_step e chunk w)) =
        (if returned (performMove e chunk
              (logging Info (''RECEIVED '' @ chunk) (w\<lparr>lastReceived := Some chunk\<rparr>))) = Some True
         then Suc (updates w) else updates w))"
proof -
  let ?w1 = "logging Info (''RECEIVED '' @ chunk) (w\<lparr>lastReceived := Some chunk\<rparr>)"
  have r: "lastReceived (state_of (performMove e chunk ?w1)) = Some chunk"
    by (simp add: performMove_lastReceived logging_def)
  have u: "updates ?w1 = updates w" by (simp add: logging_def)
  have f: "returned (performMove e chunk ?w1) \<noteq> Some True \<Longrightarrow>
           updates (state_of (performMove e chunk ?w1)) = updates w"
    using performMove_failed_board [of e chunk ?w1] u by simp
  have t: "returned (performMove e chunk ?w1) = Some True \<Longrightarrow>
           updates (state_of (performMove e chunk ?w1)) = Suc (updates w)"
    using performMove_success [of e chunk ?w1] u by (auto simp: updateMoveOnboard_fields)
  show ?thesis
  proof (cases "performMove e chunk ?w1")
    case (Returned ok w2)
    then show ?thesis using r u f t
      by (cases ok) (simp_all add: socketReader_step_unfold logging_def)
  next
    case (Raised err w2)
    then show ?thesis using r u f
      by (simp add: socketReader_step_unfold logging_def)
  qed
qed

theorem socketReader_step_gate_witness:
  "isMyMove host_window \<and>
   socketReader_step chess_engine ''e2e4'' host_window =
     Returned () (logging Info (''RECEIVED '' @ ''e2e4'') (host_window\<lparr>lastReceived := Some ''e2e4''\<rparr>)) \<and>
   \<not> isMyMove client_window \<and>
   updates (state_of (socketReader_step chess_engine ''e2e4'' client_window)) = Suc (updates client_window) \<and>
   updates (state_of (socketReader_step chess_engine ''e2e5'' client_window)) = updates client_window"
proof -
  have c: "\<not> isMyMove client_window" using client_window_fields by simp
  have h: "isMyMove host_window" using host_window_fields by simp
  have a: "socketReader_step chess_engine ''e2e4'' host_window =
     Returned () (logging Info (''RECEIVED '' @ ''e2e4'') (host_window\<lparr>lastReceived := Some ''e2e4''\<rparr>))"
    using mp [OF conjunct1 [OF conjunct2 [OF socketReader_step_gate [of chess_engine "''e2e4''" host_window]]] h] .
  have b: "updates (state_of (socketReader_step chess_engine ''e2e4'' client_window)) = Suc (updates client_window)"
    using conjunct2 [OF mp [OF conjunct2 [OF conjunct2 [OF socketReader_step_gate [of chess_engine "''e2e4''" client_window]]] c]]
          e2e4_remote_succeeds
    by simp
  have d: "updates (state_of (socketReader_step chess_engine ''e2e5'' client_window)) = updates client_window"
    using conjunct2 [OF mp [OF conjunct2 [OF conjunct2 [OF socketReader_step_gate [of chess_engine "''e2e5''" client_window]]] c]]
          e2e5_remote_fails
    by simp
  show ?thesis using h a c b d by (intro conjI)
qed

text \<open>
  Claim C7 as stated fails: the host, whose turn it is, reads the chunk \<^verbatim>\<open>e2e4\<close>, a legal
  move on its board, and neither plays it nor requests a repaint; and the client's
  rejection of \<^verbatim>\<open>e2e5\<close> requests no repaint either.
\<close>

theorem reader_skips_performMove_in_own_turn:
  "isMyMove host_window \<and>
   from_uci ''e2e4'' = Inr \<lparr>from_square = 12, to_square = 28, promotion = None\<rparr> \<and>
   is_legal chess_engine (chessboard host_window) \<lparr>from_square = 12, to_square = 28, promotion = None\<rparr> \<and>
   chessboard (state_of (socketReader_step chess_engine ''e2e4'' host_window)) = chessboard host_window \<and>
   updates (state_of (socketReader_step chess_engine ''e2e4'' host_window)) = updates host_window \<and>
   returned (socketReader_step chess_engine ''e2e5'' client_window) = Some () \<and>
   updates (state_of (socketReader_step chess_engine ''e2e5'' client_window)) = updates client_window"
  by code_simp

subsection \<open>Checkmate\<close>

text \<open>
  Claim C6, as the code has it. When \<^verbatim>\<open>performMove\<close> succeeds and the position it leaves
  is checkmate, the popup text names as winner the colour that is not to move (Black
  when White is to move). \<^verbatim>\<open>performMove\<close> leaves the turn flag alone, and the reader
  thread then gives the turn to the local side as after any other successful move: the
  window has no state for a finished game.
\<close>

theorem checkmate_popup_and_turn:
  assumes "returned (performMove e tok w) = Some True"
    and "is_checkmate e (chessboard (state_of (performMove e tok w)))"
  shows "popup (state_of (performMove e tok w)) =
           Some (if turn e (chessboard (state_of (performMove e tok w)))
                 then ''Checkmate! Black wins!'' else ''Checkmate! White wins!'') \<and>
         isMyMove (state_of (performMove e tok w)) = isMyMove w \<and>
         (w = logging Info (''RECEIVED '' @ tok) (w0\<lparr>lastReceived := Some tok\<rparr>) \<and> \<not> isMyMove w0 \<longrightarrow>
            isMyMove (state_of (socketReader_step e tok w0)) \<and>
            popup (state_of (socketReader_step e tok w0)) = popup (state_of (performMove e tok w)))"
proof -
  obtain m where s: "state_of (performMove e tok w) = updateMoveOnboard e m w"
    using performMove_success [OF assms(1)] by blast
  have c: "is_checkmate e (push e (chessboard w) m)"
    using assms(2) by (simp add: s updateMoveOnboard_fields)
  have p: "popup (state_of (performMove e tok w)) =
           Some (if turn e (chessboard (state_of (performMove e tok w)))
                 then ''Checkmate! Black wins!'' else ''Checkmate! White wins!'')"
    using c by (simp add: s updateMoveOnboard_def Let_def logging_def)
  have r: "w = logging Info (''RECEIVED '' @ tok) (w0\<lparr>lastReceived := Some tok\<rparr>) \<and> \<not> isMyMove w0 \<longrightarrow>
            isMyMove (state_of (socketReader_step e tok w0)) \<and>
            popup (state_of (socketReader_step e tok w0)) = popup (state_of (performMove e tok w))"
  proof (intro impI, elim conjE)
    assume w: "w = logging Info (''RECEIVED '' @ tok) (w0\<lparr>lastReceived := Some tok\<rparr>)"
      and n: "\<not> isMyMove w0"
    obtain w2 where o: "performMove e tok w = Returned True w2"
      using assms(1) by (cases "performMove e tok w") auto
    show "isMyMove (state_of (socketReader_step e tok w0)) \<and>
          popup (state_of (socketReader_step e tok w0)) = popup (state_of (performMove e tok w))"
      using o n unfolding w by (simp add: socketReader_step_unfold logging_def)
  qed
  show ?thesis using p r by (simp add: performMove_isMyMove)
qed

theorem checkmate_popup_and_turn_witness:
  "\<not> isMyMove fools_mate_before_reply \<and>
   is_checkmate chess_engine (chessboard fools_mate_window) \<and>
   popup fools_mate_window = Some ''Checkmate! Black wins!'' \<and>
   isMyMove fools_mate_window"
proof -
  let ?w1 = "logging Info (''RECEIVED '' @ ''d8h4'') (fools_mate_before_reply\<lparr>lastReceived := Some ''d8h4''\<rparr>)"
  have n: "\<not> isMyMove fools_mate_before_reply"
    by (simp add: fools_mate_before_reply_eval)
  have e: "performMove chess_engine ''d8h4'' ?w1 =
     Returned True
     \<lparr>is960 = False, chessboard = position_after fools_mate_moves,
      pieceToMove = (None, None), flipped = False, isMyMove = False,
      lastMove = Some \<lparr>from_square = 59, to_square = 31, promotion = None\<rparr>,
      check = Some 4, lastReceived = Some ''d8h4'', popup = Some ''Checkmate! Black wins!'',
      sent = [''rnbqkbnr/pppppppp/8/8/8/8/PPPPPPPP/RNBQKBNR w KQkq - 0 1'', ''f2f3'', ''g2g4''],
      updates = 4,
      logged = fools_mate_log @ [(Info, ''RECEIVED d8h4''), (Info, ''Checkmate'')]\<rparr>"
    unfolding fools_mate_before_reply_eval by (rule fools_mate_reply_eval)
  have a: "returned (performMove chess_engine ''d8h4'' ?w1) = Some True"
    unfolding e by simp
  have b: "is_checkmate chess_engine (chessboard (state_of (performMove chess_engine ''d8h4'' ?w1)))"
    using fools_mate_is_checkmate unfolding e by simp
  note t = checkmate_popup_and_turn [OF a b, of fools_mate_before_reply]
  have k: "isMyMove (state_of (socketReader_step chess_engine ''d8h4'' fools_mate_before_reply)) \<and>
           popup (state_of (socketReader_step chess_engine ''d8h4'' fools_mate_before_reply)) =
             popup (state_of (performMove chess_engine ''d8h4'' ?w1))"
    using t n by blast
  have p: "popup (state_of (performMove chess_engine ''d8h4'' ?w1)) = Some ''Checkmate! Black wins!''"
    using t fools_mate_is_checkmate unfolding e by simp
  have c: "is_checkmate chess_engine (chessboard fools_mate_window)"
    using fools_mate_is_checkmate by (simp add: fools_mate_window_eval)
  show ?thesis using n c k p by (simp add: fools_mate_window_def)
qed

text \<open>
  Claim C6 as stated fails: after Fool's Mate, replayed on the host's window, the
  position is checkmate and it is the host's turn; a press on e2 is handled as in any
  other position and selects the pawn. No state of the window stands for a finished game.
\<close>

theorem no_game_over_after_checkmate:
  "is_checkmate chess_engine (chessboard fools_mate_window) \<and>
   isMyMove fools_mate_window \<and>
   pieceToMove (state_of (mousePressEvent chess_engine (press 4 6) fools_mate_window)) =
     (Some (Piece PAWN True), Some ''e2'')"
proof -
  have c: "is_checkmate chess_engine (chessboard fools_mate_window)"
    using fools_mate_is_checkmate by (simp add: fools_mate_window_eval)
  have m: "isMyMove fools_mate_window"
    by (simp add: fools_mate_window_eval)
  have s: "pieceToMove (state_of (mousePressEvent chess_engine (press 4 6)
     \<lparr>is960 = False, chessboard = position_after fools_mate_moves,
      pieceToMove = (None, None), flipped = False, isMyMove = True,
      lastMove = Some \<lparr>from_square = 59, to_square = 31, promotion = None\<rparr>,
      check = Some 4, lastReceived = Some ''d8h4'', popup = Some ''Checkmate! Black wins!'',
      sent = [''rnbqkbnr/pppppppp/8/8/8/8/PPPPPPPP/RNBQKBNR w KQkq - 0 1'', ''f2f3'', ''g2g4''],
      updates = 4,
      logged = fools_mate_log @ [(Info, ''RECEIVED d8h4''), (Info, ''Checkmate''), (Info, ''My Move:True'')]\<rparr>)) =
     (Some (Piece PAWN True), Some ''e2'')"
    by code_simp
  show ?thesis using c m s unfolding fools_mate_window_eval by (intro conjI)
qed

subsection \<open>The move codec\<close>

text \<open>
  Claim C9. Every move between two squares of the board, with or without a promotion
  piece, has a textual rendering, and decoding that rendering gives the move back; the
  legal moves of any position are among these.
\<close>

theorem move_codec_roundtrip:
  assumes "from_square m < 64" and "to_square m < 64"
  shows "\<exists>s. uci m = Some s \<and> from_uci s = Inr m"
proof (cases "from_square m \<noteq> 0 \<or> to_square m \<noteq> 0 \<or> promotion m \<noteq> None")
  case False
  then have "m = null_move" by (simp add: null_move_def)
  then show ?thesis by (simp add: uci_def from_uci_def null_move_def)
next
  case True
  define a where "a = SQUARE_NAMES ! from_square m"
  define b where "b = SQUARE_NAMES ! to_square m"
  have la: "length a = 2" and ha: "hd a \<noteq> CHR ''0''" and ia: "index_of SQUARE_NAMES a = Some (from_square m)"
    using square_name [OF assms(1)] by (simp_all add: a_def)
  have lb: "length b = 2" and ib: "index_of SQUARE_NAMES b = Some (to_square m)"
    using square_name [OF assms(2)] by (simp_all add: b_def)
  have nz: "a @ r \<noteq> ''0000''" for r
    using la ha by (cases a) auto
  show ?thesis
  proof (cases "promotion m")
    case None
    have u: "uci m = Some (a @ b)"
      using True None assms by (simp add: uci_def a_def b_def SQUARE_NAMES_length)
    have "from_uci (a @ b) = Inr m"
      using nz [of b] la lb ia ib None by (simp add: from_uci_def)
    with u show ?thesis by simp
  next
    case (Some p)
    have u: "uci m = Some (a @ b @ [piece_symbol p])"
      using Some assms by (simp add: uci_def a_def b_def SQUARE_NAMES_length)
    define s where "s = a @ b @ [piece_symbol p]"
    have l: "length s = 5"
      using la lb by (simp add: s_def)
    have z: "s \<noteq> ''0000''"
    proof
      assume "s = ''0000''"
      then have "length s = 4" by simp
      with l show False by simp
    qed
    have f: "s \<noteq> ''0000''" "length s = 5" "take 2 s = a" "take 2 (drop 2 s) = b"
      "s ! 4 = piece_symbol p"
      using la lb l z by (simp_all add: s_def nth_append)
    have "from_uci s = Inr m"
      using f ia ib Some by (simp add: from_uci_def piece_symbol_decodes)
    then have "from_uci (a @ b @ [piece_symbol p]) = Inr m"
      by (simp only: s_def)
    with u show ?thesis by simp
  qed
qed

theorem move_codec_roundtrip_witness:
  "uci \<lparr>from_square = 52, to_square = 60, promotion = Some QUEEN\<rparr> = Some ''e7e8q'' \<and>
   from_uci ''e7e8q'' = Inr \<lparr>from_square = 52, to_square = 60, promotion = Some QUEEN\<rparr>"
proof -
  obtain s where s: "uci \<lparr>from_square = 52, to_square = 60, promotion = Some QUEEN\<rparr> = Some s"
    and d: "from_uci s = Inr \<lparr>from_square = 52, to_square = 60, promotion = Some QUEEN\<rparr>"
    using move_codec_roundtrip [of "\<lparr>from_square = 52, to_square = 60, promotion = Some QUEEN\<rparr>"]
    by auto
  have "s = ''e7e8q''" using s e7e8q_encodes by simp
  then show ?thesis using d e7e8q_encodes by simp
qed

subsection \<open>The bootstrap of a session\<close>



end
